theory Spec2Isabelle
  imports Complex_Main "HOL-Library.Sublist" "HOL-Library.Multiset"
begin

section \<open>Geometry: coordinates, lines and envelopes\<close>

text \<open>
  The engine under verification is \<^verbatim>\<open>FeatureMergeWithIds\<close>: \<^verbatim>\<open>mergeLineStrings\<close>,
  \<^verbatim>\<open>removeDetailOutsideTile\<close> and \<^verbatim>\<open>sortByHilbertIndex\<close>.

  A coordinate is a pair of Java doubles. They are modelled as reals: the code only
  compares coordinates and computes \<^verbatim>\<open>-buffer\<close> and \<^verbatim>\<open>256 + buffer\<close>, so NaN and the
  rounding of that one sum are the only parts of double arithmetic left out.
  A \<^verbatim>\<open>LineString\<close> is its coordinate sequence.
\<close>

type_synonym coord = "real \<times> real"
type_synonym lineString = "coord list"

text \<open>
  Uncaught Java exceptions that the code can raise: \<^verbatim>\<open>seq.getX(0)\<close> on an empty
  coordinate sequence, and \<^verbatim>\<open>getFirst()\<close> on an empty list.
\<close>

datatype error = IndexOutOfBounds | NoSuchElement

text \<open>
  Modelled from the spec: the bounding box of a pair of coordinates, and whether it
  intersects the buffered tile square. The code uses the JTS class
  \<^verbatim>\<open>org.locationtech.jts.geom.Envelope\<close>, which is not part of the repository:
  \<^verbatim>\<open>init(x1, x2, y1, y2)\<close> orders each pair of bounds, \<^verbatim>\<open>isNull\<close> is \<^verbatim>\<open>maxx < minx\<close>,
  and \<^verbatim>\<open>intersects\<close> is false on a null envelope and otherwise the negation of the four
  separation tests.
\<close>

record envelope =
  minx :: real
  maxx :: real
  miny :: real
  maxy :: real

definition init :: "real \<Rightarrow> real \<Rightarrow> real \<Rightarrow> real \<Rightarrow> envelope" where
  "init x1 x2 y1 y2 =
     \<lparr> minx = (if x1 < x2 then x1 else x2), maxx = (if x1 < x2 then x2 else x1),
       miny = (if y1 < y2 then y1 else y2), maxy = (if y1 < y2 then y2 else y1) \<rparr>"

definition isNull :: "envelope \<Rightarrow> bool" where
  "isNull e = (maxx e < minx e)"

definition intersects :: "envelope \<Rightarrow> envelope \<Rightarrow> bool" where
  "intersects e other =
     (if isNull e \<or> isNull other then False
      else \<not> (minx other > maxx e \<or> maxx other < minx e \<or>
              miny other > maxy e \<or> maxy other < miny e))"

text \<open>
  Modelled from the spec: a coordinate that is retained is put at the end of the current
  run. The code calls \<^verbatim>\<open>addPoint\<close> of \<^verbatim>\<open>MutableCoordinateSequence\<close>, a class of the
  planetiler library whose source is not part of the repository.
\<close>

definition addPoint :: "lineString \<Rightarrow> coord \<Rightarrow> lineString" where
  "addPoint current p = current @ [p]"

section \<open>The tile boundary clipper\<close>

text \<open>
  \<^verbatim>\<open>removeDetailOutsideTile\<close> reads \<^verbatim>\<open>seq.getX(0)\<close> first, which throws on an empty
  sequence. Then comes its \<^verbatim>\<open>for\<close> loop. The loop variables are the point
  \<open>(x, y)\<close>, the coordinates still ahead (\<^verbatim>\<open>seq[i + 1 ..]\<close>), \<open>wasIn\<close>, the
  run \<open>current\<close> and the list \<open>output\<close>; the result is their value at loop exit.
\<close>

fun clipLoop ::
  "envelope \<Rightarrow> coord \<Rightarrow> coord list \<Rightarrow> bool \<Rightarrow> lineString \<Rightarrow> lineString list
     \<Rightarrow> coord \<times> bool \<times> lineString \<times> lineString list" where
  "clipLoop outer (x, y) [] wasIn current output = ((x, y), wasIn, current, output)"
| "clipLoop outer (x, y) ((nextX, nextY) # rest) wasIn current output =
     (let nowIn = intersects (init x nextX y nextY) outer in
      if nowIn \<or> wasIn then
        clipLoop outer (nextX, nextY) rest nowIn (addPoint current (x, y)) output
      else if current \<noteq> [] then
        clipLoop outer (nextX, nextY) rest nowIn []
          (if length current \<ge> 2 then output @ [current] else output)
      else
        clipLoop outer (nextX, nextY) rest nowIn current output)"

text \<open>
  The code after the loop: the last point is tested as a pair with itself (\<open>(x, y)\<close> is
  the last point by then), and the final run is added when it has two points or more.
\<close>

definition afterLoop ::
  "envelope \<Rightarrow> coord \<Rightarrow> coord \<times> bool \<times> lineString \<times> lineString list \<Rightarrow> lineString list" where
  "afterLoop outer lastP st =
     (case st of ((x, y), wasIn, current, output) \<Rightarrow>
        (case lastP of (lastX, lastY) \<Rightarrow>
           (let current' = (if intersects (init x lastX y lastY) outer \<or> wasIn
                            then addPoint current (lastX, lastY) else current)
            in if length current' \<ge> 2 then output @ [current'] else output)))"

definition removeDetailOutsideTile ::
  "lineString \<Rightarrow> real \<Rightarrow> lineString list \<Rightarrow> error + lineString list" where
  "removeDetailOutsideTile input buffer output =
     (case input of
        [] \<Rightarrow> Inl IndexOutOfBounds
      | p0 # rest \<Rightarrow>
          (let min = - buffer; max = 256 + buffer;
               outer = init min max min max
           in Inr (afterLoop outer (last input) (clipLoop outer p0 rest False [] output))))"

text \<open>
  The clipping step of \<^verbatim>\<open>mergeLineStrings\<close>: the body of the loop over the merged
  lines, and the loop itself. An exception of the clipper ends the loop.
\<close>

definition clipLine :: "real \<Rightarrow> lineString \<Rightarrow> lineString list \<Rightarrow> error + lineString list" where
  "clipLine buffer line outputSegments =
     (if buffer \<ge> 0 then removeDetailOutsideTile line buffer outputSegments
      else Inr (outputSegments @ [line]))"

fun clipLines :: "real \<Rightarrow> lineString list \<Rightarrow> lineString list \<Rightarrow> error + lineString list" where
  "clipLines buffer [] outputSegments = Inr outputSegments"
| "clipLines buffer (line # lines) outputSegments =
     (case clipLine buffer line outputSegments of
        Inl e \<Rightarrow> Inl e
      | Inr outputSegments' \<Rightarrow> clipLines buffer lines outputSegments')"

section \<open>Features and the planetiler interface\<close>

text \<open>
  \<^verbatim>\<open>VectorTile.Feature\<close>: the code reads \<^verbatim>\<open>id()\<close>, \<^verbatim>\<open>geometry()\<close> (the encoded
  geometry, of type \<open>'g\<close>) and \<^verbatim>\<open>tags()\<close>. Every further field of the library's class
  is the record's extension, which \<^verbatim>\<open>copyWithNewGeometry\<close> and \<^verbatim>\<open>setTag\<close> carry over.
  A Java \<^verbatim>\<open>long\<close> id is an integer here; no arithmetic is done on ids.
\<close>

datatype tagValue = StringValue string | LongValue int | DoubleValue real | BooleanValue bool

record 'g feature =
  id' :: int
  geometry :: 'g
  tags :: "string \<rightharpoonup> tagValue"

datatype geometryException = GeometryException string

text \<open>What \<^verbatim>\<open>e.log\<close> records: the exception caught and the feature it names.\<close>

type_synonym ('g, 'm) logged = "(geometryException \<times> ('g, 'm) feature_scheme) list"

text \<open>
  \<^verbatim>\<open>LoopLineMerger\<close> as the code configures it: the six values it sets, and the
  geometries passed to \<^verbatim>\<open>add\<close>, in order.
\<close>

record ('geom, 'p) loopLineMerger =
  mergerTolerance :: real
  mergeStrokes :: bool
  minLength :: real
  loopMinLength :: real
  stubMinLength :: real
  segmentTransform :: "'p option"
  added :: "'geom list"

text \<open>
  The operations of planetiler that the code calls and whose source is not part of the
  repository are parameters of the model: decoding an encoded geometry (which may throw
  \<^verbatim>\<open>GeometryException\<close>), the line merger's result, \<^verbatim>\<open>VectorTile.hilbertIndex\<close> (a Java
  \<^verbatim>\<open>int\<close>, compared by \<^verbatim>\<open>Integer.compare\<close>), \<^verbatim>\<open>GeoUtils.combineLineStrings\<close>, the
  encoding done by \<^verbatim>\<open>copyWithNewGeometry\<close>, and \<^verbatim>\<open>FeatureMerge.groupByAttrs\<close> for line
  features, which returns the groups and the features it passes on to \<open>result\<close>.
\<close>

record ('g, 'geom, 'p, 'm) planetiler =
  decode :: "'g \<Rightarrow> geometryException + 'geom"
  getMergedLineStrings :: "('geom, 'p) loopLineMerger \<Rightarrow> lineString list"
  hilbertIndex :: "lineString \<Rightarrow> int"
  combineLineStrings :: "lineString list \<Rightarrow> 'geom"
  encodeGeometry :: "'geom \<Rightarrow> 'g"
  groupByAttrs :: "('g, 'm) feature_scheme list \<Rightarrow> ('g, 'm) feature_scheme list list \<times> ('g, 'm) feature_scheme list"

text \<open>
  Modelled from the spec: the merged feature is the first feature with a new geometry
  and one more tag. \<^verbatim>\<open>copyWithNewGeometry\<close> and \<^verbatim>\<open>setTag\<close> are methods of the library's
  \<^verbatim>\<open>VectorTile.Feature\<close>; they are functional updates here, of the emitted feature only.
\<close>

definition copyWithNewGeometry ::
  "('g, 'geom, 'p, 'm) planetiler \<Rightarrow> ('g, 'm) feature_scheme \<Rightarrow> 'geom \<Rightarrow> ('g, 'm) feature_scheme" where
  "copyWithNewGeometry lib feature newGeometry =
     feature\<lparr>geometry := encodeGeometry lib newGeometry\<rparr>"

definition setTag :: "('g, 'm) feature_scheme \<Rightarrow> string \<Rightarrow> tagValue \<Rightarrow> ('g, 'm) feature_scheme" where
  "setTag feature key v = feature\<lparr>tags := (tags feature)(key \<mapsto> v)\<rparr>"

section \<open>Identifier lists\<close>

text \<open>\<^verbatim>\<open>String.valueOf(long)\<close> and \<^verbatim>\<open>String.join\<close>.\<close>

definition digitChar :: "nat \<Rightarrow> char" where
  "digitChar d = ''0123456789'' ! d"

fun digits :: "nat \<Rightarrow> string" where
  "digits n = (if n < 10 then [digitChar n] else digits (n div 10) @ [digitChar (n mod 10)])"

definition valueOf :: "int \<Rightarrow> string" where
  "valueOf i = (if i < 0 then CHR ''-'' # digits (nat (- i)) else digits (nat i))"

fun join :: "string \<Rightarrow> string list \<Rightarrow> string" where
  "join sep [] = []"
| "join sep [s] = s"
| "join sep (s # t # r) = s @ sep @ join sep (t # r)"

section \<open>Sorting by Hilbert index\<close>

text \<open>
  \<^verbatim>\<open>sortByHilbertIndex\<close>: each geometry is paired with its index (\<^verbatim>\<open>WithIndex\<close>), the
  pairs are sorted by \<^verbatim>\<open>BY_HILBERT_INDEX\<close>, which compares the indices only, and the
  geometries are taken back out. \<^verbatim>\<open>Stream.sorted\<close> is a stable sort, as \<open>sort_key\<close> is.
\<close>

definition sortByHilbertIndex ::
  "('g, 'geom, 'p, 'm) planetiler \<Rightarrow> lineString list \<Rightarrow> lineString list" where
  "sortByHilbertIndex lib geometries =
     map fst (sort_key snd (map (\<lambda>p. (p, hilbertIndex lib p)) geometries))"

section \<open>Merging the line strings of a tile\<close>

definition newLoopLineMerger :: "real \<Rightarrow> real \<Rightarrow> 'p option \<Rightarrow> ('geom, 'p) loopLineMerger" where
  "newLoopLineMerger tolerance lengthLimit pipeline =
     \<lparr> mergerTolerance = tolerance, mergeStrokes = True, minLength = lengthLimit,
       loopMinLength = lengthLimit, stubMinLength = 0.5, segmentTransform = pipeline,
       added = [] \<rparr>"

text \<open>
  The loop over the features of a group: a feature whose geometry decodes is added to the
  merger and its id to \<open>mergedIds\<close>; a \<^verbatim>\<open>GeometryException\<close> is caught and logged with
  the feature, and the loop goes on.
\<close>

fun addFeatures ::
  "('g, 'geom, 'p, 'm) planetiler \<Rightarrow> ('g, 'm) feature_scheme list
     \<Rightarrow> ('geom, 'p) loopLineMerger \<times> int list \<times> ('g, 'm) logged
     \<Rightarrow> ('geom, 'p) loopLineMerger \<times> int list \<times> ('g, 'm) logged" where
  "addFeatures lib [] st = st"
| "addFeatures lib (feature # features) (merger, mergedIds, logged) =
     (case decode lib (geometry feature) of
        Inr g \<Rightarrow>
          addFeatures lib features
            (merger\<lparr>added := added merger @ [g]\<rparr>, mergedIds @ [id' feature], logged)
      | Inl e \<Rightarrow> addFeatures lib features (merger, mergedIds, logged @ [(e, feature)]))"

text \<open>
  The body of the loop over the groups. The state is the \<open>result\<close> list and the log of caught exceptions.
  \<^verbatim>\<open>getFirst()\<close> throws on an empty group.
\<close>

definition mergeGroup ::
  "('g, 'geom, 'p, 'm) planetiler \<Rightarrow> ((string \<rightharpoonup> tagValue) \<Rightarrow> real) \<Rightarrow> real \<Rightarrow> real \<Rightarrow> bool
     \<Rightarrow> 'p option \<Rightarrow> ('g, 'm) feature_scheme list
     \<Rightarrow> ('g, 'm) feature_scheme list \<times> ('g, 'm) logged
     \<Rightarrow> error + ('g, 'm) feature_scheme list \<times> ('g, 'm) logged" where
  "mergeGroup lib lengthLimitCalculator tolerance buffer resimplify pipeline groupedFeatures st =
     (case groupedFeatures of
        [] \<Rightarrow> Inl NoSuchElement
      | feature1 # _ \<Rightarrow>
          (case st of (result, logged) \<Rightarrow>
            (let lengthLimit = lengthLimitCalculator (tags feature1) in
             if length groupedFeatures = 1 \<and> buffer = 0 \<and> lengthLimit = 0
                  \<and> (\<not> resimplify \<or> tolerance = 0)
             then Inr (result @ [feature1], logged)
             else
               (case addFeatures lib groupedFeatures
                       (newLoopLineMerger tolerance lengthLimit pipeline, [], logged) of
                  (merger, mergedIds, logged') \<Rightarrow>
                    (case clipLines buffer (getMergedLineStrings lib merger) [] of
                       Inl e \<Rightarrow> Inl e
                     | Inr outputSegments \<Rightarrow>
                         if outputSegments \<noteq> [] then
                           (let sorted = sortByHilbertIndex lib outputSegments;
                                newGeometry = combineLineStrings lib sorted;
                                mergedFeature = copyWithNewGeometry lib feature1 newGeometry;
                                mergedIdsStr = join '','' (map valueOf (sort mergedIds))
                            in Inr (result @
                                      [setTag mergedFeature ''osm_way_ids'' (StringValue mergedIdsStr)],
                                    logged'))
                         else Inr (result, logged'))))))"

fun mergeGroups ::
  "('g, 'geom, 'p, 'm) planetiler \<Rightarrow> ((string \<rightharpoonup> tagValue) \<Rightarrow> real) \<Rightarrow> real \<Rightarrow> real \<Rightarrow> bool
     \<Rightarrow> 'p option \<Rightarrow> ('g, 'm) feature_scheme list list
     \<Rightarrow> ('g, 'm) feature_scheme list \<times> ('g, 'm) logged
     \<Rightarrow> error + ('g, 'm) feature_scheme list \<times> ('g, 'm) logged" where
  "mergeGroups lib lengthLimitCalculator tolerance buffer resimplify pipeline [] st = Inr st"
| "mergeGroups lib lengthLimitCalculator tolerance buffer resimplify pipeline (g # gs) st =
     (case mergeGroup lib lengthLimitCalculator tolerance buffer resimplify pipeline g st of
        Inl e \<Rightarrow> Inl e
      | Inr st' \<Rightarrow>
          mergeGroups lib lengthLimitCalculator tolerance buffer resimplify pipeline gs st')"

definition mergeLineStrings ::
  "('g, 'geom, 'p, 'm) planetiler \<Rightarrow> ('g, 'm) feature_scheme list \<Rightarrow> ((string \<rightharpoonup> tagValue) \<Rightarrow> real) \<Rightarrow> real
     \<Rightarrow> real \<Rightarrow> bool \<Rightarrow> 'p option
     \<Rightarrow> error + ('g, 'm) feature_scheme list \<times> ('g, 'm) logged" where
  "mergeLineStrings lib features lengthLimitCalculator tolerance buffer resimplify pipeline =
     (case groupByAttrs lib features of
        (groupedByAttrs, result) \<Rightarrow>
          mergeGroups lib lengthLimitCalculator tolerance buffer resimplify pipeline
            groupedByAttrs (result, []))"

section \<open>The clipper, as the specification words it\<close>

text \<open>
  The bounding box of a pair of coordinates meets the buffered tile square
  \<open>[- buffer, 256 + buffer] \<times> [- buffer, 256 + buffer]\<close>.
\<close>

definition pairInside :: "real \<Rightarrow> coord \<Rightarrow> coord \<Rightarrow> bool" where
  "pairInside buffer p q =
     (min (fst p) (fst q) \<le> 256 + buffer \<and> - buffer \<le> max (fst p) (fst q) \<and>
      min (snd p) (snd q) \<le> 256 + buffer \<and> - buffer \<le> max (snd p) (snd q))"

text \<open>
  One flag per coordinate: whether the pair it starts is inside; the last coordinate
  forms the final pair with itself.
\<close>

fun pairFlags :: "real \<Rightarrow> lineString \<Rightarrow> bool list" where
  "pairFlags b [] = []"
| "pairFlags b [p] = [pairInside b p p]"
| "pairFlags b (p # q # r) = pairInside b p q # pairFlags b (q # r)"

text \<open>
  A coordinate is retained if the current pair is inside or the previous pair was inside
  (there is no pair before the first one).
\<close>

definition retained :: "real \<Rightarrow> lineString \<Rightarrow> bool list" where
  "retained b line = map2 (\<or>) (pairFlags b line) (False # pairFlags b line)"

text \<open>
  The maximal runs of retained elements: an element that is not retained ends the
  current run and starts a new, empty one.
\<close>

fun runs :: "('a \<times> bool) list \<Rightarrow> 'a list \<Rightarrow> 'a list list" where
  "runs [] cur = [cur]"
| "runs ((x, k) # r) cur = (if k then runs r (cur @ [x]) else cur # runs r [])"

text \<open>The output lines: the runs of retained coordinates that have two points or more.\<close>

definition clippedPieces :: "real \<Rightarrow> lineString \<Rightarrow> lineString list" where
  "clippedPieces b line = filter (\<lambda>r. 2 \<le> length r) (runs (zip line (retained b line)) [])"

text \<open>The retained flags with the loop's \<open>wasIn\<close> as a parameter, for the loop invariant.\<close>

fun retainedFrom :: "real \<Rightarrow> bool \<Rightarrow> lineString \<Rightarrow> bool list" where
  "retainedFrom b w [] = []"
| "retainedFrom b w [p] = [pairInside b p p \<or> w]"
| "retainedFrom b w (p # q # r) =
     (pairInside b p q \<or> w) # retainedFrom b (pairInside b p q) (q # r)"

section \<open>Notions used to state the claims about a group\<close>

text \<open>The condition under which the loop body takes the shortcut.\<close>

definition takesShortcut ::
  "((string \<rightharpoonup> tagValue) \<Rightarrow> real) \<Rightarrow> real \<Rightarrow> real \<Rightarrow> bool \<Rightarrow> ('g, 'm) feature_scheme list \<Rightarrow> bool"
  where
  "takesShortcut lengthLimitCalculator tolerance buffer resimplify groupedFeatures =
     (length groupedFeatures = 1 \<and> buffer = 0
      \<and> lengthLimitCalculator (tags (hd groupedFeatures)) = 0
      \<and> (\<not> resimplify \<or> tolerance = 0))"

text \<open>
  The features of a group whose geometry decodes, their geometries and ids in the
  order of the group, and the log entries of the others.
\<close>

definition decodes :: "('g, 'geom, 'p, 'm) planetiler \<Rightarrow> ('g, 'm) feature_scheme \<Rightarrow> bool" where
  "decodes lib feature = (case decode lib (geometry feature) of Inr g \<Rightarrow> True | Inl e \<Rightarrow> False)"

definition decodedGeometries ::
  "('g, 'geom, 'p, 'm) planetiler \<Rightarrow> ('g, 'm) feature_scheme list \<Rightarrow> 'geom list" where
  "decodedGeometries lib features =
     List.map_filter
       (\<lambda>f. case decode lib (geometry f) of Inr g \<Rightarrow> Some g | Inl e \<Rightarrow> None) features"

definition decodedIds ::
  "('g, 'geom, 'p, 'm) planetiler \<Rightarrow> ('g, 'm) feature_scheme list \<Rightarrow> int list" where
  "decodedIds lib features = map id' (filter (decodes lib) features)"

definition decodeFailures ::
  "('g, 'geom, 'p, 'm) planetiler \<Rightarrow> ('g, 'm) feature_scheme list \<Rightarrow> ('g, 'm) logged" where
  "decodeFailures lib features =
     List.map_filter
       (\<lambda>f. case decode lib (geometry f) of Inr g \<Rightarrow> None | Inl e \<Rightarrow> Some (e, f)) features"

text \<open>
  The merged and clipped lines of a group: what the merge path computes as
  \<open>outputSegments\<close>, from the merger configured for the group and fed with the
  geometries that decode.
\<close>

definition outputSegmentsOf ::
  "('g, 'geom, 'p, 'm) planetiler \<Rightarrow> ((string \<rightharpoonup> tagValue) \<Rightarrow> real) \<Rightarrow> real \<Rightarrow> real \<Rightarrow> 'p option
     \<Rightarrow> ('g, 'm) feature_scheme list \<Rightarrow> error + lineString list" where
  "outputSegmentsOf lib lengthLimitCalculator tolerance buffer pipeline groupedFeatures =
     clipLines buffer
       (getMergedLineStrings lib
          ((newLoopLineMerger tolerance (lengthLimitCalculator (tags (hd groupedFeatures))) pipeline)
             \<lparr>added := decodedGeometries lib groupedFeatures\<rparr>)) []"

text \<open>The feature the merge path emits for a group, from its first feature.\<close>

definition mergedFeatureOf ::
  "('g, 'geom, 'p, 'm) planetiler \<Rightarrow> ('g, 'm) feature_scheme \<Rightarrow> lineString list \<Rightarrow> int list
     \<Rightarrow> ('g, 'm) feature_scheme" where
  "mergedFeatureOf lib feature1 outputSegments mergedIds =
     setTag
       (copyWithNewGeometry lib feature1
          (combineLineStrings lib (sortByHilbertIndex lib outputSegments)))
       ''osm_way_ids'' (StringValue (join '','' (map valueOf (sort mergedIds))))"

text \<open>
  The identifiers that an output feature carries: those listed in its tag
  \<^verbatim>\<open>osm_way_ids\<close>, read back from the comma-separated decimal string, or its own id when it
  has no such tag.
\<close>

definition digitValue :: "char \<Rightarrow> nat" where
  "digitValue c = of_char c - 48"

definition parseDigits :: "string \<Rightarrow> nat" where
  "parseDigits s = foldl (\<lambda>n c. 10 * n + digitValue c) 0 s"

definition parseLong :: "string \<Rightarrow> int" where
  "parseLong s =
     (case s of
        [] \<Rightarrow> 0
      | c # cs \<Rightarrow> if c = CHR ''-'' then - int (parseDigits cs) else int (parseDigits s))"

fun fields :: "string \<Rightarrow> string list" where
  "fields [] = [[]]"
| "fields (c # cs) =
     (if c = CHR '','' then [] # fields cs
      else (case fields cs of [] \<Rightarrow> [[c]] | f # fs \<Rightarrow> (c # f) # fs))"

definition parseIds :: "string \<Rightarrow> int list" where
  "parseIds s = (if s = [] then [] else map parseLong (fields s))"

definition identifiers :: "('g, 'm) feature_scheme \<Rightarrow> int list" where
  "identifiers f =
     (case tags f ''osm_way_ids'' of
        None \<Rightarrow> [id' f]
      | Some v \<Rightarrow> (case v of StringValue s \<Rightarrow> parseIds s | _ \<Rightarrow> [id' f]))"

section \<open>An instance of the library interface\<close>

text \<open>
  A small instance of the interface, to evaluate the model on concrete inputs: an
  encoded geometry is a list of lines or is corrupt; the merger returns every line added
  to it as it is (what merging does to lines that do not touch, with tolerance and
  length limit zero); the Hilbert index is a function of the unit grid cell that holds
  the first coordinate of a line; features are grouped by equal tags in order of first
  appearance.
\<close>

datatype vectorGeometry = Encoded "lineString list" | Corrupt

fun sampleIndex :: "lineString \<Rightarrow> int" where
  "sampleIndex [] = 0"
| "sampleIndex ((x, y) # _) = \<lfloor>x\<rfloor> + 256 * \<lfloor>y\<rfloor>"

fun sampleDecode :: "vectorGeometry \<Rightarrow> geometryException + lineString list" where
  "sampleDecode (Encoded ls) = Inr ls"
| "sampleDecode Corrupt = Inl (GeometryException ''corrupt geometry'')"

fun sampleInsert ::
  "vectorGeometry feature \<Rightarrow> vectorGeometry feature list list \<Rightarrow> vectorGeometry feature list list"
  where
  "sampleInsert f [] = [[f]]"
| "sampleInsert f (g # gs) =
     (if tags (hd g) = tags f then (g @ [f]) # gs else g # sampleInsert f gs)"

definition sampleLib :: "(vectorGeometry, lineString list, unit, unit) planetiler" where
  "sampleLib =
     \<lparr> decode = sampleDecode,
       getMergedLineStrings = (\<lambda>merger. concat (added merger)),
       hilbertIndex = sampleIndex,
       combineLineStrings = (\<lambda>ls. ls),
       encodeGeometry = Encoded,
       groupByAttrs = (\<lambda>features. (foldl (\<lambda>gs f. sampleInsert f gs) [] features, [])) \<rparr>"

text \<open>
  Features for the examples: \<open>sampleFeature\<close> gives them all the same tags; a feature
  of another group is given \<open>footwayTags\<close>.
\<close>

definition cyclewayTags :: "string \<rightharpoonup> tagValue" where
  "cyclewayTags = [''highway'' \<mapsto> StringValue ''cycleway'']"

definition sampleFeature :: "int \<Rightarrow> vectorGeometry \<Rightarrow> vectorGeometry feature" where
  "sampleFeature i g = \<lparr> id' = i, geometry = g, tags = cyclewayTags \<rparr>"

definition footwayTags :: "string \<rightharpoonup> tagValue" where
  "footwayTags = [''highway'' \<mapsto> StringValue ''footway'']"

section \<open>The clipper: proofs\<close>

lemma retainedFrom_map2:
  "map2 (\<or>) (pairFlags b line) (w # pairFlags b line) = retainedFrom b w line"
  by (induction b line arbitrary: w rule: pairFlags.induct) simp_all

text \<open>For a buffer that is not negative, the envelope test is the test on the square.\<close>

lemma intersects_pairInside:
  "0 \<le> b \<Longrightarrow> intersects (init x x' y y') (init (- b) (256 + b) (- b) (256 + b))
     = pairInside b (x, y) (x', y')"
  by (auto simp: intersects_def init_def isNull_def pairInside_def min_def max_def)

text \<open>
  The loop invariant: from any loop state, the loop and the code after it add to
  \<open>output\<close> the runs of two points or more that the retained flags cut out of the
  coordinates still to come, the first run being continued from \<open>current\<close>.
\<close>

lemma clipLoop_runs:
  assumes "0 \<le> b"
  shows "afterLoop (init (- b) (256 + b) (- b) (256 + b)) (last (p # rest))
           (clipLoop (init (- b) (256 + b) (- b) (256 + b)) p rest w cur out)
         = out @ filter (\<lambda>r. 2 \<le> length r)
                   (runs (zip (p # rest) (retainedFrom b w (p # rest))) cur)"
proof (induction rest arbitrary: p w cur out)
  case Nil
  obtain x y where p: "p = (x, y)" by (cases p)
  show ?case using assms
    by (simp add: p afterLoop_def intersects_pairInside addPoint_def Let_def)
next
  case (Cons q rest)
  obtain x y where p: "p = (x, y)" by (cases p)
  obtain nx ny where q: "q = (nx, ny)" by (cases q)
  show ?case using assms Cons.IH[of q]
    by (simp add: p q intersects_pairInside addPoint_def Let_def)
qed

lemma removeDetailOutsideTile_pieces:
  assumes "0 \<le> b" "line \<noteq> []"
  shows "removeDetailOutsideTile line b out = Inr (out @ clippedPieces b line)"
proof -
  obtain p0 rest where l: "line = p0 # rest" using assms(2) by (cases line) auto
  have "removeDetailOutsideTile (p0 # rest) b out =
          Inr (afterLoop (init (- b) (256 + b) (- b) (256 + b)) (last (p0 # rest))
                 (clipLoop (init (- b) (256 + b) (- b) (256 + b)) p0 rest False [] out))"
    unfolding removeDetailOutsideTile_def by (simp add: Let_def del: last.simps)
  then show ?thesis
    unfolding l clipLoop_runs[OF assms(1)]
    by (simp add: clippedPieces_def retained_def retainedFrom_map2)
qed

lemma length_pairFlags [simp]: "length (pairFlags b line) = length line"
  by (induction b line rule: pairFlags.induct) simp_all

lemma pairFlags_nth:
  "Suc i < length line \<Longrightarrow> pairFlags b line ! i = pairInside b (line ! i) (line ! Suc i)"
proof (induction b line arbitrary: i rule: pairFlags.induct)
  case (3 b p q r)
  then show ?case by (cases i) simp_all
qed simp_all

lemma length_retained [simp]: "length (retained b line) = length line"
  by (simp add: retained_def)

lemma retained_nth:
  "i < length line \<Longrightarrow>
     retained b line ! i = (pairFlags b line ! i \<or> (0 < i \<and> pairFlags b line ! (i - 1)))"
  by (cases i) (simp_all add: retained_def)

lemma runs_all_kept:
  "length ks = length xs \<Longrightarrow> \<forall>k \<in> set ks. k \<Longrightarrow> runs (zip xs ks) cur = [cur @ xs]"
proof (induction xs arbitrary: ks cur)
  case Nil
  then show ?case by simp
next
  case (Cons x xs)
  then obtain k ks' where ks: "ks = k # ks'" by (cases ks) auto
  with Cons.prems have "length ks' = length xs" "\<forall>k \<in> set ks'. k" "k" by auto
  then show ?case using Cons.IH[of ks' "cur @ [x]"] by (simp add: ks)
qed

lemma runs_append_dropped:
  "runs (A @ (x, False) # B) cur = runs A cur @ runs B []"
  by (induction A cur rule: runs.induct) simp_all

lemma runs_sublist:
  "l \<in> set (runs zs cur) \<Longrightarrow>
     (\<exists>ys. l = cur @ ys \<and> prefix ys (map fst zs)) \<or> sublist l (map fst zs)"
proof (induction zs cur rule: runs.induct)
  case (1 cur)
  then show ?case by simp
next
  case (2 x k r cur)
  show ?case
  proof (cases k)
    case True
    with 2 have "(\<exists>ys. l = (cur @ [x]) @ ys \<and> prefix ys (map fst r)) \<or> sublist l (map fst r)"
      by simp
    then show ?thesis
    proof
      assume "\<exists>ys. l = (cur @ [x]) @ ys \<and> prefix ys (map fst r)"
      then obtain ys where "l = cur @ (x # ys)" "prefix (x # ys) (map fst ((x, k) # r))" by auto
      then show ?thesis by blast
    next
      assume "sublist l (map fst r)"
      then show ?thesis by (simp add: sublist_Cons_right)
    qed
  next
    case False
    with 2 have "l = cur \<or> l \<in> set (runs r [])" by simp
    then show ?thesis
    proof
      assume "l = cur"
      then have "l = cur @ [] \<and> prefix [] (map fst ((x, k) # r))" by simp
      then show ?thesis by blast
    next
      assume "l \<in> set (runs r [])"
      with 2 False have "(\<exists>ys. l = [] @ ys \<and> prefix ys (map fst r)) \<or> sublist l (map fst r)"
        by simp
      then have "sublist l (map fst r)" by auto
      then show ?thesis by (simp add: sublist_Cons_right)
    qed
  qed
qed

lemma runs_Nil_sublist:
  "length ks = length xs \<Longrightarrow> l \<in> set (runs (zip xs ks) []) \<Longrightarrow> sublist l xs"
  using runs_sublist[of l "zip xs ks" "[]"] by auto

lemma clippedPieces_sublist: "l \<in> set (clippedPieces b line) \<Longrightarrow> sublist l line"
  unfolding clippedPieces_def using runs_Nil_sublist[of "retained b line" line l] by simp

lemma clippedPieces_one_piece:
  assumes n: "2 \<le> length line"
    and first: "pairInside b (line ! 0) (line ! 1)"
    and lst: "pairInside b (line ! (length line - 2)) (line ! (length line - 1))"
    and mid: "\<forall>i. i + 2 < length line \<longrightarrow>
                pairInside b (line ! i) (line ! (i + 1)) \<or> pairInside b (line ! (i + 1)) (line ! (i + 2))"
  shows "clippedPieces b line = [line]"
proof -
  have "retained b line ! j" if j: "j < length line" for j
  proof -
    consider "j = 0" | "0 < j" "Suc j < length line" | "0 < j" "Suc j = length line"
      using j by linarith
    then show ?thesis
    proof cases
      case 1
      have "Suc 0 < length line" using n by simp
      then have "pairFlags b line ! 0" using first by (simp add: pairFlags_nth)
      then show ?thesis using 1 j by (simp add: retained_nth)
    next
      case 2
      then obtain i where i: "j = Suc i" by (cases j) auto
      with 2 mid have "pairInside b (line ! i) (line ! (i + 1)) \<or> pairInside b (line ! (i + 1)) (line ! (i + 2))"
        by simp
      then show ?thesis using 2 i by (auto simp: retained_nth pairFlags_nth)
    next
      case 3
      then obtain i where i: "j = Suc i" by (cases j) auto
      have "length line - 2 = i" "length line - 1 = Suc i" using 3 i by simp_all
      then have "pairInside b (line ! i) (line ! Suc i)" using lst by simp
      then have "pairFlags b line ! i" using 3 i by (simp add: pairFlags_nth)
      then show ?thesis using 3 i by (simp add: retained_nth)
    qed
  qed
  then have "\<forall>k \<in> set (retained b line). k"
    by (metis in_set_conv_nth length_retained)
  then have "runs (zip line (retained b line)) [] = [line]"
    using runs_all_kept[of "retained b line" line "[]"] by simp
  then show ?thesis using n by (simp add: clippedPieces_def)
qed

lemma clippedPieces_split:
  assumes i: "1 \<le> i" "i + 1 < length line"
    and out1: "\<not> pairInside b (line ! (i - 1)) (line ! i)"
    and out2: "\<not> pairInside b (line ! i) (line ! (i + 1))"
    and l: "l \<in> set (clippedPieces b line)"
  shows "sublist l (take i line) \<or> sublist l (drop (Suc i) line)"
proof -
  let ?ks = "retained b line"
  have ki: "\<not> ?ks ! i" using i out1 out2 by (simp add: retained_nth pairFlags_nth)
  have len: "i < length (zip line ?ks)" using i by simp
  have z: "zip line ?ks = zip (take i line) (take i ?ks) @ (line ! i, ?ks ! i) # zip (drop (Suc i) line) (drop (Suc i) ?ks)"
    using id_take_nth_drop[OF len] i by (simp add: take_zip drop_zip)
  have "runs (zip line ?ks) [] = runs (zip (take i line) (take i ?ks)) [] @ runs (zip (drop (Suc i) line) (drop (Suc i) ?ks)) []"
    using ki by (subst z) (simp add: runs_append_dropped)
  then have "l \<in> set (runs (zip (take i line) (take i ?ks)) []) \<or> l \<in> set (runs (zip (drop (Suc i) line) (drop (Suc i) ?ks)) [])"
    using l by (auto simp: clippedPieces_def)
  then show ?thesis
    using runs_Nil_sublist[of "take i ?ks" "take i line" l]
      runs_Nil_sublist[of "drop (Suc i) ?ks" "drop (Suc i) line" l] by auto
qed

lemma clipLines_negative:
  "buffer < 0 \<Longrightarrow> clipLines buffer lines out = Inr (out @ lines)"
  by (induction lines arbitrary: out) (simp_all add: clipLine_def)

section \<open>Claims about the clipper\<close>

text \<open>
  Claim C4. For a buffer that is not negative, the clipper retains a coordinate into the
  current run if and only if the bounding box of the current pair of consecutive
  coordinates meets the buffered tile square or that of the previous pair did: its
  output is the runs of retained coordinates that have two points or more, so every
  run with fewer than two points, flushed or final, is discarded. A line that is outside
  for single pairs only, with its first and its last pair inside, is emitted as one
  piece, the whole line. Where two consecutive pairs are outside, the coordinate they
  share is dropped and the line is split there: every piece lies within the
  coordinates before it or within those after it.
\<close>

theorem removeDetailOutsideTile_hysteresis:
  assumes "0 \<le> buffer" and "line \<noteq> []"
  shows "removeDetailOutsideTile line buffer out = Inr (out @ clippedPieces buffer line)
    \<and> (2 \<le> length line
        \<and> pairInside buffer (line ! 0) (line ! 1)
        \<and> pairInside buffer (line ! (length line - 2)) (line ! (length line - 1))
        \<and> (\<forall>i. i + 2 < length line \<longrightarrow>
              pairInside buffer (line ! i) (line ! (i + 1))
              \<or> pairInside buffer (line ! (i + 1)) (line ! (i + 2)))
       \<longrightarrow> removeDetailOutsideTile line buffer out = Inr (out @ [line]))
    \<and> (\<forall>i l. 1 \<le> i \<and> i + 1 < length line
          \<and> \<not> pairInside buffer (line ! (i - 1)) (line ! i)
          \<and> \<not> pairInside buffer (line ! i) (line ! (i + 1))
          \<and> l \<in> set (clippedPieces buffer line)
         \<longrightarrow> sublist l (take i line) \<or> sublist l (drop (Suc i) line))
    \<and> (\<forall>l \<in> set (clippedPieces buffer line). 2 \<le> length l)"
proof -
  have a: "removeDetailOutsideTile line buffer out = Inr (out @ clippedPieces buffer line)"
    using assms by (rule removeDetailOutsideTile_pieces)
  have d: "\<forall>l \<in> set (clippedPieces buffer line). 2 \<le> length l"
    by (simp add: clippedPieces_def)
  show ?thesis
    using a d clippedPieces_one_piece[of line buffer] clippedPieces_split[of _ line buffer]
    by (intro conjI impI allI) auto
qed

theorem removeDetailOutsideTile_hysteresis_witness:
  "removeDetailOutsideTile [(10, 10), (300, 10), (300, 20), (100, 20)] 0 []
     = Inr [[(10, 10), (300, 10), (300, 20), (100, 20)]]
   \<and> removeDetailOutsideTile [(10, 10), (300, 10), (400, 10), (300, 20), (100, 20)] 0 []
     = Inr [[(10, 10), (300, 10)], [(300, 20), (100, 20)]]
   \<and> sublist [(300, 20), (100, 20)]
       (drop 3 ([(10, 10), (300, 10), (400, 10), (300, 20), (100, 20)] :: lineString))"
proof -
  let ?l1 = "[(10, 10), (300, 10), (300, 20), (100, 20)] :: lineString"
  let ?l2 = "[(10, 10), (300, 10), (400, 10), (300, 20), (100, 20)] :: lineString"
  have b0: "(0::real) \<le> 0" by simp
  have ne1: "?l1 \<noteq> []" and ne2: "?l2 \<noteq> []" by simp_all
  note h1 = removeDetailOutsideTile_hysteresis[OF b0 ne1, of "[]"]
  note h2 = removeDetailOutsideTile_hysteresis[OF b0 ne2, of "[]"]
  have mid: "pairInside 0 (?l1 ! i) (?l1 ! (i + 1)) \<or> pairInside 0 (?l1 ! (i + 1)) (?l1 ! (i + 2))"
    if "i + 2 < length ?l1" for i
  proof -
    from that have "i = 0 \<or> i = 1" by auto
    then show ?thesis by (auto simp: pairInside_def)
  qed
  have ends: "2 \<le> length ?l1" "pairInside 0 (?l1 ! 0) (?l1 ! 1)"
    "pairInside 0 (?l1 ! (length ?l1 - 2)) (?l1 ! (length ?l1 - 1))"
    by (simp_all add: pairInside_def)
  have one: "removeDetailOutsideTile ?l1 0 [] = Inr ([] @ [?l1])"
    using h1 ends mid by blast
  have two: "removeDetailOutsideTile ?l2 0 [] = Inr ([] @ clippedPieces 0 ?l2)"
    using h2 by blast
  have pieces: "clippedPieces 0 ?l2 = [[(10, 10), (300, 10)], [(300, 20), (100, 20)]]"
    by (simp add: clippedPieces_def retained_def pairInside_def)
  have outs: "1 \<le> (2::nat)" "2 + 1 < length ?l2"
    "\<not> pairInside 0 (?l2 ! (2 - 1)) (?l2 ! 2)" "\<not> pairInside 0 (?l2 ! 2) (?l2 ! (2 + 1))"
    "[(300, 20), (100, 20)] \<in> set (clippedPieces 0 ?l2)"
    by (simp_all add: pieces pairInside_def)
  have "sublist [(300, 20), (100, 20)] (take 2 ?l2) \<or> sublist [(300, 20), (100, 20)] (drop (Suc 2) ?l2)"
    using h2 outs by blast
  moreover have "\<not> sublist [(300, 20), (100, 20)] (take 2 ?l2)"
    by (simp add: sublist_Cons_right)
  ultimately have three: "sublist [(300, 20), (100, 20)] (drop 3 ?l2)"
    by (simp add: numeral_3_eq_3)
  from one two pieces three show ?thesis by simp
qed

text \<open>
  Claim C10. For a buffer that is not negative, every line the clipper adds to its
  output is a contiguous subsequence of the input line's coordinate sequence: no
  coordinate is interpolated or made up at the tile boundary. (On an empty coordinate
  sequence the clipper throws and adds nothing.)
\<close>

theorem clipper_output_contiguous:
  assumes "0 \<le> buffer"
  shows "(line = [] \<and> removeDetailOutsideTile line buffer out = Inl IndexOutOfBounds)
    \<or> (\<exists>pieces. removeDetailOutsideTile line buffer out = Inr (out @ pieces)
          \<and> (\<forall>l \<in> set pieces. sublist l line))"
proof (cases "line = []")
  case True
  then show ?thesis by (simp add: removeDetailOutsideTile_def)
next
  case False
  then show ?thesis
    using removeDetailOutsideTile_pieces[OF assms False, of out] clippedPieces_sublist
    by blast
qed

theorem clipper_output_contiguous_witness:
  "removeDetailOutsideTile
     [(10, 10), (20, 20), (300, 20), (400, 20), (300, 20), (100, 100), (50, 50)] 0 []
     = Inr [[(10, 10), (20, 20), (300, 20)], [(300, 20), (100, 100), (50, 50)]]
   \<and> sublist [(10, 10), (20, 20), (300, 20)]
       ([(10, 10), (20, 20), (300, 20), (400, 20), (300, 20), (100, 100), (50, 50)] :: lineString)
   \<and> sublist [(300, 20), (100, 100), (50, 50)]
       ([(10, 10), (20, 20), (300, 20), (400, 20), (300, 20), (100, 100), (50, 50)] :: lineString)"
proof -
  let ?l = "[(10, 10), (20, 20), (300, 20), (400, 20), (300, 20), (100, 100), (50, 50)] :: lineString"
  have b0: "(0::real) \<le> 0" by simp
  have r: "removeDetailOutsideTile ?l 0 []
             = Inr [[(10, 10), (20, 20), (300, 20)], [(300, 20), (100, 100), (50, 50)]]"
    by (simp add: removeDetailOutsideTile_def afterLoop_def intersects_def init_def isNull_def
        addPoint_def)
  from clipper_output_contiguous[OF b0, of ?l "[]"]
  obtain pieces where "removeDetailOutsideTile ?l 0 [] = Inr ([] @ pieces)"
    and s: "\<forall>l \<in> set pieces. sublist l ?l" by auto
  with r have "pieces = [[(10, 10), (20, 20), (300, 20)], [(300, 20), (100, 100), (50, 50)]]"
    by simp
  with s r show ?thesis by simp
qed

text \<open>
  Claim C5. With a negative buffer the clipping step passes every line through
  unchanged, one line or a whole list of them; with any other buffer the step is the
  clipper, which does remove a line that lies left of the buffered square. So clipping
  is disabled exactly when the buffer is negative.
\<close>

theorem negative_buffer_disables_clipping:
  "(buffer < 0 \<longrightarrow> clipLine buffer line out = Inr (out @ [line])
                   \<and> clipLines buffer lines out = Inr (out @ lines))
   \<and> (0 \<le> buffer \<longrightarrow> clipLine buffer line out = removeDetailOutsideTile line buffer out
        \<and> clipLine buffer [(- buffer - 1, 0), (- buffer - 2, 0)] out = Inr out)"
  by (auto simp: clipLine_def clipLines_negative removeDetailOutsideTile_pieces clippedPieces_def
      retained_def pairInside_def)

theorem negative_buffer_disables_clipping_witness:
  "clipLine (- 1) [(300, 300), (400, 400)] [] = Inr [[(300, 300), (400, 400)]]
   \<and> clipLines (- 1) [[(300, 300), (400, 400)], [(1, 1), (2, 2)]] []
       = Inr [[(300, 300), (400, 400)], [(1, 1), (2, 2)]]
   \<and> clipLine 0 [(- 1, 0), (- 2, 0)] [] = Inr []"
  using negative_buffer_disables_clipping[of "- 1" "[(300, 300), (400, 400)]" "[]"
      "[[(300, 300), (400, 400)], [(1, 1), (2, 2)]]"]
    negative_buffer_disables_clipping[of 0 "[]" "[]" "[]"]
  by (simp del: clipLines.simps)

section \<open>The merge of a group: proofs\<close>

declare digits.simps [simp del]

lemma addFeatures_eq:
  "addFeatures lib fs (m, ids, lg) =
     (m\<lparr>added := added m @ decodedGeometries lib fs\<rparr>, ids @ decodedIds lib fs,
      lg @ decodeFailures lib fs)"
proof (induction fs arbitrary: m ids lg)
  case Nil
  show ?case by (simp add: decodedGeometries_def decodedIds_def decodeFailures_def)
next
  case (Cons f fs)
  show ?case
    by (cases "decode lib (geometry f)")
      (simp_all add: Cons.IH decodedGeometries_def decodedIds_def decodeFailures_def
        decodes_def)
qed

lemma added_newLoopLineMerger [simp]:
  "(newLoopLineMerger t l p)\<lparr>added := added (newLoopLineMerger t l p) @ gs\<rparr>
     = (newLoopLineMerger t l p)\<lparr>added := gs\<rparr>"
  by (simp add: newLoopLineMerger_def)

lemma mergeGroup_merge:
  assumes "\<not> takesShortcut calc tolerance buffer resimplify (feature1 # rest)"
  shows "mergeGroup lib calc tolerance buffer resimplify pipeline (feature1 # rest) (result, logged)
           = (case outputSegmentsOf lib calc tolerance buffer pipeline (feature1 # rest) of
                Inl e \<Rightarrow> Inl e
              | Inr segs \<Rightarrow>
                  Inr (if segs \<noteq> []
                       then result @ [mergedFeatureOf lib feature1 segs (decodedIds lib (feature1 # rest))]
                       else result,
                       logged @ decodeFailures lib (feature1 # rest)))"
  using assms
  unfolding mergeGroup_def takesShortcut_def outputSegmentsOf_def mergedFeatureOf_def
    addFeatures_eq
  by (auto simp: Let_def split: sum.splits)

text \<open>
  Two facts that hold whatever the library does. The shortcut does not call it; and the
  merge path never returns the group's first feature as it came, when that feature has
  no tag \<^verbatim>\<open>osm_way_ids\<close>: it emits nothing or a feature with the tag set.
\<close>

lemma shortcut_ignores_library:
  assumes "takesShortcut lengthLimitCalculator tolerance buffer resimplify (feature1 # rest)"
  shows "mergeGroup lib lengthLimitCalculator tolerance buffer resimplify pipeline (feature1 # rest)
           (result, logged)
         = Inr (result @ [feature1], logged)"
  using assms by (simp add: mergeGroup_def takesShortcut_def)

lemma merge_path_sets_key:
  assumes "\<not> takesShortcut lengthLimitCalculator tolerance buffer resimplify (feature1 # rest)"
    and "tags feature1 ''osm_way_ids'' = None"
  shows "mergeGroup lib lengthLimitCalculator tolerance buffer resimplify pipeline (feature1 # rest)
           (result, logged)
         \<noteq> Inr (result @ [feature1], logged')"
proof
  assume a: "mergeGroup lib lengthLimitCalculator tolerance buffer resimplify pipeline
               (feature1 # rest) (result, logged) = Inr (result @ [feature1], logged')"
  then obtain segs where
    "mergedFeatureOf lib feature1 segs (decodedIds lib (feature1 # rest)) = feature1"
    using assms(1) by (auto simp: mergeGroup_merge split: sum.splits if_splits)
  then have "tags feature1 ''osm_way_ids'' =
      tags (mergedFeatureOf lib feature1 segs (decodedIds lib (feature1 # rest))) ''osm_way_ids''"
    by simp
  also have "\<dots> \<noteq> None"
    by (simp add: mergedFeatureOf_def setTag_def copyWithNewGeometry_def)
  finally show False using assms(2) by simp
qed

lemma decodeFailures_mem:
  "f \<in> set fs \<Longrightarrow> decode lib (geometry f) = Inl e \<Longrightarrow> (e, f) \<in> set (decodeFailures lib fs)"
  by (induction fs) (auto simp: decodeFailures_def split: sum.splits)

lemma decodedGeometries_mem:
  "g \<in> set (decodedGeometries lib fs) \<longleftrightarrow> (\<exists>f \<in> set fs. decode lib (geometry f) = Inr g)"
  by (induction fs) (auto simp: decodedGeometries_def split: sum.splits)

lemma insort_key_map:
  "insort_key f (g x) (map g ys) = map g (insort_key (\<lambda>y. f (g y)) x ys)"
  by (induction ys) simp_all

lemma sort_key_map: "sort_key f (map g xs) = map g (sort_key (\<lambda>y. f (g y)) xs)"
  by (induction xs) (simp_all add: insort_key_map)

lemma sortByHilbertIndex_sort_key:
  "sortByHilbertIndex lib lines = sort_key (hilbertIndex lib) lines"
  by (simp add: sortByHilbertIndex_def sort_key_map comp_def)

text \<open>Reading an identifier list back gives the ids it was written from.\<close>

lemma digitValue_digitChar: "d < 10 \<Longrightarrow> digitValue (digitChar d) = d"
proof -
  assume "d < 10"
  then have "d \<in> {0, 1, 2, 3, 4, 5, 6, 7, 8, 9}" by auto
  then show ?thesis by (auto simp: digitValue_def digitChar_def)
qed

lemma digitChar_digit: "d < 10 \<Longrightarrow> digitChar d \<in> set ''0123456789''"
  unfolding digitChar_def by (rule nth_mem) simp

lemma parseDigits_snoc: "parseDigits (s @ [c]) = 10 * parseDigits s + digitValue c"
  by (simp add: parseDigits_def)

lemma parseDigits_digits: "parseDigits (digits n) = n"
proof (induction n rule: digits.induct)
  case (1 n)
  show ?case
  proof (cases "n < 10")
    case True
    then show ?thesis
      by (subst digits.simps) (simp add: parseDigits_def digitValue_digitChar)
  next
    case False
    then have "parseDigits (digits (n div 10)) = n div 10" using 1 by simp
    with False show ?thesis
      by (subst digits.simps) (simp add: parseDigits_snoc digitValue_digitChar)
  qed
qed

lemma set_digits: "set (digits n) \<subseteq> set ''0123456789''"
proof (induction n rule: digits.induct)
  case (1 n)
  show ?case
  proof (cases "n < 10")
    case True
    then show ?thesis using digitChar_digit[of n] by (subst digits.simps) simp
  next
    case False
    then have "set (digits (n div 10)) \<subseteq> set ''0123456789''" using 1 by simp
    moreover have "digitChar (n mod 10) \<in> set ''0123456789''" by (rule digitChar_digit) simp
    ultimately show ?thesis using False by (subst digits.simps) simp
  qed
qed

lemma digits_nonempty: "digits n \<noteq> []"
  by (subst digits.simps) simp

lemma parseLong_valueOf: "parseLong (valueOf i) = i"
proof (cases "i < 0")
  case True
  then show ?thesis by (simp add: valueOf_def parseLong_def parseDigits_digits)
next
  case False
  obtain c cs where d: "digits (nat i) = c # cs" using digits_nonempty[of "nat i"] by (cases "digits (nat i)") auto
  have "c \<in> set ''0123456789''" using set_digits[of "nat i"] d by auto
  then have "c \<noteq> CHR ''-''" by auto
  with False d parseDigits_digits[of "nat i"] show ?thesis
    by (simp add: valueOf_def parseLong_def)
qed

lemma valueOf_no_comma: "CHR '','' \<notin> set (valueOf i)"
  using set_digits[of "nat i"] set_digits[of "nat (- i)"] by (auto simp: valueOf_def)

lemma valueOf_nonempty: "valueOf i \<noteq> []"
  by (simp add: valueOf_def digits_nonempty)

lemma fields_nonempty: "fields s \<noteq> []"
  by (induction s) (auto split: list.splits)

lemma fields_no_comma: "CHR '','' \<notin> set s \<Longrightarrow> fields s = [s]"
  by (induction s) (auto split: list.splits)

lemma fields_append_comma:
  "CHR '','' \<notin> set s \<Longrightarrow> fields (s @ CHR '','' # r) = s # fields r"
  by (induction s) (auto split: list.splits)

lemma fields_join:
  "xs \<noteq> [] \<Longrightarrow> \<forall>x \<in> set xs. CHR '','' \<notin> set x \<Longrightarrow> fields (join '','' xs) = xs"
proof (induction "'',''" xs rule: join.induct)
  case 1
  then show ?case by simp
next
  case (2 s)
  then show ?case by (simp add: fields_no_comma)
next
  case (3 s t r)
  then show ?case by (simp add: fields_append_comma)
qed

lemma join_nonempty: "xs \<noteq> [] \<Longrightarrow> \<forall>x \<in> set xs. x \<noteq> [] \<Longrightarrow> join sep xs \<noteq> []"
  by (induction sep xs rule: join.induct) auto

lemma parseIds_join: "parseIds (join '','' (map valueOf ids)) = ids"
proof (cases "ids = []")
  case True
  then show ?thesis by (simp add: parseIds_def)
next
  case False
  then have "join '','' (map valueOf ids) \<noteq> []"
    by (intro join_nonempty) (auto simp: valueOf_nonempty)
  moreover have "fields (join '','' (map valueOf ids)) = map valueOf ids"
    using False by (intro fields_join) (auto simp: valueOf_no_comma)
  ultimately show ?thesis by (simp add: parseIds_def parseLong_valueOf comp_def)
qed

text \<open>
  The identifiers carried by what a group, and then a list of groups, adds to
  \<open>result\<close> are ids of the group's features, and distinct when those are.
\<close>

lemma distinct_map_submset:
  assumes "mset xs \<subseteq># mset ys" and "distinct (map f ys)"
  shows "distinct (map f xs)"
proof -
  from assms(1) obtain Z where "mset ys = mset xs + Z"
    by (auto simp: mset_subset_eq_exists_conv)
  moreover obtain zs where "Z = mset zs" using ex_mset[of Z] by blast
  ultimately have "mset ys = mset (xs @ zs)" by simp
  then have "mset (map f ys) = mset (map f (xs @ zs))" by (metis mset_map)
  then have "distinct (map f ys) = distinct (map f (xs @ zs))" by (rule mset_eq_imp_distinct_iff)
  with assms(2) show ?thesis by simp
qed

lemma identifiers_untagged: "tags f ''osm_way_ids'' = None \<Longrightarrow> identifiers f = [id' f]"
  by (simp add: identifiers_def)

lemma identifiers_merged: "identifiers (mergedFeatureOf lib feature1 segs ids) = sort ids"
  by (simp add: identifiers_def mergedFeatureOf_def setTag_def copyWithNewGeometry_def parseIds_join)

lemma mergeGroup_identifiers:
  fixes lib :: "('g, 'geom, 'p, 'm) planetiler"
  assumes run: "mergeGroup lib calc tolerance buffer resimplify pipeline g (result, lg) = Inr (result', lg')"
    and notag: "\<forall>f \<in> set g. tags f ''osm_way_ids'' = None"
  shows "\<exists>new. result' = result @ new
           \<and> set (concat (map identifiers new)) \<subseteq> set (map id' g)
           \<and> (distinct (map id' g) \<longrightarrow> distinct (concat (map identifiers new)))"
proof (cases g)
  case Nil
  with run show ?thesis by (simp add: mergeGroup_def)
next
  case (Cons feature1 rest)
  show ?thesis
  proof (cases "takesShortcut calc tolerance buffer resimplify (feature1 # rest)")
    case True
    from run have r: "result' = result @ [feature1]"
      unfolding Cons shortcut_ignores_library[OF True] by simp
    have i: "identifiers feature1 = [id' feature1]"
      using notag Cons by (simp add: identifiers_untagged)
    have "result' = result @ [feature1]
        \<and> set (concat (map identifiers [feature1])) \<subseteq> set (map id' g)
        \<and> (distinct (map id' g) \<longrightarrow> distinct (concat (map identifiers [feature1])))"
      using r i Cons by simp
    then show ?thesis by (rule exI)
  next
    case False
    let ?ids = "sort (decodedIds lib g)"
    let ?mf = "\<lambda>segs. mergedFeatureOf lib feature1 segs (decodedIds lib g)"
    have sub: "set ?ids \<subseteq> set (map id' g)" by (auto simp: decodedIds_def)
    have dis: "distinct (map id' g) \<longrightarrow> distinct ?ids"
    proof
      assume "distinct (map id' g)"
      then have "distinct (map id' (filter (decodes lib) g))" by (rule distinct_map_filter)
      then show "distinct ?ids" by (simp only: decodedIds_def distinct_sort)
    qed
    note m = run[unfolded Cons mergeGroup_merge[OF False], folded Cons]
    show ?thesis
    proof (cases "outputSegmentsOf lib calc tolerance buffer pipeline g")
      case (Inl e)
      with m show ?thesis by simp
    next
      case (Inr segs)
      show ?thesis
      proof (cases "segs = []")
        case True
        with m Inr have "result' = result @ []" by simp
        then have "result' = result @ []
            \<and> set (concat (map identifiers ([] :: ('g, 'm) feature_scheme list))) \<subseteq> set (map id' g)
            \<and> (distinct (map id' g) \<longrightarrow>
                 distinct (concat (map identifiers ([] :: ('g, 'm) feature_scheme list))))"
          by simp
        then show ?thesis by (rule exI)
      next
        case False
        with m Inr have r: "result' = result @ [?mf segs]" by simp
        have "concat (map identifiers [?mf segs]) = ?ids" by (simp add: identifiers_merged)
        with r sub dis have "result' = result @ [?mf segs]
            \<and> set (concat (map identifiers [?mf segs])) \<subseteq> set (map id' g)
            \<and> (distinct (map id' g) \<longrightarrow> distinct (concat (map identifiers [?mf segs])))"
          by simp
        then show ?thesis by (rule exI)
      qed
    qed
  qed
qed

lemma mergeGroups_identifiers:
  fixes lib :: "('g, 'geom, 'p, 'm) planetiler"
  assumes "mergeGroups lib calc tolerance buffer resimplify pipeline groups (result, lg)
             = Inr (result', lg')"
    and "\<forall>f \<in> set (concat groups). tags f ''osm_way_ids'' = None"
  shows "\<exists>new. result' = result @ new
           \<and> set (concat (map identifiers new)) \<subseteq> set (map id' (concat groups))
           \<and> (distinct (map id' (concat groups)) \<longrightarrow> distinct (concat (map identifiers new)))"
  using assms
proof (induction groups arbitrary: result lg)
  case Nil
  then have "result' = result @ []
      \<and> set (concat (map identifiers ([] :: ('g, 'm) feature_scheme list))) \<subseteq> set (map id' (concat []))
      \<and> (distinct (map id' (concat ([] :: ('g, 'm) feature_scheme list list)))
           \<longrightarrow> distinct (concat (map identifiers ([] :: ('g, 'm) feature_scheme list))))"
    by simp
  then show ?case by (rule exI)
next
  case (Cons g gs)
  from Cons.prems(1) obtain mid lgm where
    g: "mergeGroup lib calc tolerance buffer resimplify pipeline g (result, lg) = Inr (mid, lgm)"
    and gs: "mergeGroups lib calc tolerance buffer resimplify pipeline gs (mid, lgm) = Inr (result', lg')"
    by (auto split: sum.splits)
  have ng: "\<forall>f \<in> set g. tags f ''osm_way_ids'' = None"
    and ngs: "\<forall>f \<in> set (concat gs). tags f ''osm_way_ids'' = None"
    using Cons.prems(2) by auto
  from mergeGroup_identifiers[OF g ng] obtain n1 where
    n1: "mid = result @ n1" "set (concat (map identifiers n1)) \<subseteq> set (map id' g)"
      "distinct (map id' g) \<longrightarrow> distinct (concat (map identifiers n1))"
    by blast
  from Cons.IH[OF gs ngs] obtain n2 where
    n2: "result' = mid @ n2" "set (concat (map identifiers n2)) \<subseteq> set (map id' (concat gs))"
      "distinct (map id' (concat gs)) \<longrightarrow> distinct (concat (map identifiers n2))"
    by blast
  have a: "result' = result @ (n1 @ n2)" using n1(1) n2(1) by simp
  have b: "set (concat (map identifiers (n1 @ n2))) \<subseteq> set (map id' (concat (g # gs)))"
    using n1(2) n2(2) by auto
  have c: "distinct (map id' (concat (g # gs))) \<longrightarrow> distinct (concat (map identifiers (n1 @ n2)))"
  proof
    assume d: "distinct (map id' (concat (g # gs)))"
    then have "distinct (map id' g)" "distinct (map id' (concat gs))"
      "set (map id' g) \<inter> set (map id' (concat gs)) = {}"
      by auto
    with n1 n2 have "distinct (concat (map identifiers n1))" "distinct (concat (map identifiers n2))"
      "set (concat (map identifiers n1)) \<inter> set (concat (map identifiers n2)) = {}"
      by blast+
    then show "distinct (concat (map identifiers (n1 @ n2)))" by simp
  qed
  from a b c show ?case by blast
qed

lemma mergeLineStrings_identifiers:
  fixes lib :: "('g, 'geom, 'p, 'm) planetiler"
  assumes grp: "groupByAttrs lib features = (groups, others)"
    and part: "mset (concat groups) + mset others \<subseteq># mset features"
    and ids: "distinct (map id' features)"
    and notag: "\<forall>f \<in> set features. tags f ''osm_way_ids'' = None"
    and run: "mergeLineStrings lib features calc tolerance buffer resimplify pipeline = Inr (out, logged)"
  shows "distinct (concat (map identifiers out))"
proof -
  have sub: "mset (concat groups @ others) \<subseteq># mset features" using part by simp
  then have mem: "set (concat groups @ others) \<subseteq> set features"
    by (metis set_mset_mono set_mset_mset)
  have d: "distinct (map id' (concat groups @ others))"
    using sub ids by (rule distinct_map_submset)
  have ng: "\<forall>f \<in> set (concat groups). tags f ''osm_way_ids'' = None"
    using mem notag by auto
  have no: "\<forall>f \<in> set others. tags f ''osm_way_ids'' = None"
    using mem notag by auto
  from run grp have "mergeGroups lib calc tolerance buffer resimplify pipeline groups (others, [])
      = Inr (out, logged)"
    by (simp add: mergeLineStrings_def)
  from mergeGroups_identifiers[OF this ng] obtain new where
    n: "out = others @ new" "set (concat (map identifiers new)) \<subseteq> set (map id' (concat groups))"
      "distinct (map id' (concat groups)) \<longrightarrow> distinct (concat (map identifiers new))"
    by blast
  have o: "concat (map identifiers others) = map id' others"
    using no by (induction others) (simp_all add: identifiers_untagged)
  from d have "distinct (map id' others)" "distinct (map id' (concat groups))"
    "set (map id' others) \<inter> set (map id' (concat groups)) = {}"
    by auto
  with n(2,3) have "distinct (map id' others)" "distinct (concat (map identifiers new))"
    "set (map id' others) \<inter> set (concat (map identifiers new)) = {}"
    by blast+
  then show ?thesis unfolding n(1) by (simp add: o)
qed

lemma merged_feature_ids:
  fixes lib :: "('g, 'geom, 'p, 'm) planetiler"
  assumes "\<not> takesShortcut lengthLimitCalculator tolerance buffer resimplify (feature1 # rest)"
    and "mergeGroup lib lengthLimitCalculator tolerance buffer resimplify pipeline (feature1 # rest)
           (result, logged) = Inr (result @ [mf], logged')"
  shows "\<exists>ids. tags mf ''osm_way_ids'' = Some (StringValue (join '','' (map valueOf ids)))
           \<and> identifiers mf = ids
           \<and> sorted ids
           \<and> mset ids = mset (map id' (filter (decodes lib) (feature1 # rest)))
           \<and> (distinct (map id' (feature1 # rest)) \<longrightarrow> distinct ids)"
proof -
  let ?g = "feature1 # rest"
  let ?ids = "sort (decodedIds lib ?g)"
  from assms obtain segs where
    mf: "mf = mergedFeatureOf lib feature1 segs (decodedIds lib ?g)"
    by (auto simp: mergeGroup_merge split: sum.splits if_splits)
  have t: "tags mf ''osm_way_ids'' = Some (StringValue (join '','' (map valueOf ?ids)))"
    by (simp add: mf mergedFeatureOf_def setTag_def copyWithNewGeometry_def)
  have i: "identifiers mf = ?ids" unfolding mf by (rule identifiers_merged)
  have s: "sorted ?ids" by simp
  have m: "mset ?ids = mset (map id' (filter (decodes lib) ?g))"
    by (simp add: decodedIds_def)
  have d: "distinct (map id' ?g) \<longrightarrow> distinct ?ids"
  proof
    assume "distinct (map id' ?g)"
    then have "distinct (map id' (filter (decodes lib) ?g))" by (rule distinct_map_filter)
    then show "distinct ?ids" by (simp only: decodedIds_def distinct_sort)
  qed
  have "tags mf ''osm_way_ids'' = Some (StringValue (join '','' (map valueOf ?ids)))
      \<and> identifiers mf = ?ids \<and> sorted ?ids
      \<and> mset ?ids = mset (map id' (filter (decodes lib) ?g))
      \<and> (distinct (map id' ?g) \<longrightarrow> distinct ?ids)"
    by (rule conjI[OF t conjI[OF i conjI[OF s conjI[OF m d]]]])
  then show ?thesis by (rule exI)
qed

lemma merge_path_empty_output:
  assumes "groupedFeatures \<noteq> []"
    and "\<not> takesShortcut lengthLimitCalculator tolerance buffer resimplify groupedFeatures"
    and "outputSegmentsOf lib lengthLimitCalculator tolerance buffer pipeline groupedFeatures = Inr []"
  shows "mergeGroup lib lengthLimitCalculator tolerance buffer resimplify pipeline groupedFeatures
           (result, logged)
         = Inr (result, logged @ decodeFailures lib groupedFeatures)"
proof -
  obtain feature1 rest where g: "groupedFeatures = feature1 # rest"
    using assms(1) by (cases groupedFeatures) auto
  show ?thesis
    using assms(2,3) unfolding g by (simp add: mergeGroup_merge)
qed

text \<open>The definitions that evaluate the model on the instance.\<close>

lemmas sample_eval =
  mergeGroup_def sampleLib_def newLoopLineMerger_def clipLine_def removeDetailOutsideTile_def
  afterLoop_def intersects_def init_def isNull_def addPoint_def sortByHilbertIndex_def
  copyWithNewGeometry_def setTag_def valueOf_def digits.simps digitChar_def Let_def
  sampleFeature_def

lemmas sample_segs = outputSegmentsOf_def decodedGeometries_def decodeFailures_def decodedIds_def
  decodes_def takesShortcut_def

section \<open>Claims about the merge of a group\<close>

text \<open>
  Claim C1: what the code does on the input at which the claim fails. The guard of the
  shortcut tests \<^verbatim>\<open>buffer == 0d\<close>, so with a negative buffer a group of one feature does
  not take the shortcut, whatever the length limit and \<open>resimplify\<close> are. It takes the
  merge path, which ends in an error of the clipper, emits nothing, or emits the feature
  with a new geometry and the key \<^verbatim>\<open>osm_way_ids\<close> set; for a feature that does not have
  that key already, the output is never the input feature as it came. The claim, the
  comment above the guard (the shortcut is for a group that does not need to be clipped)
  and the clipping step (which clips for every buffer \<open>\<ge> 0\<close> and passes lines through
  for a negative one) all say that this group passes through.
\<close>

theorem negative_buffer_singleton_merged:
  assumes "buffer < 0" and "tags feature ''osm_way_ids'' = None"
  shows "mergeGroup lib lengthLimitCalculator tolerance buffer resimplify pipeline [feature]
           (result, logged)
         = (case outputSegmentsOf lib lengthLimitCalculator tolerance buffer pipeline [feature] of
              Inl e \<Rightarrow> Inl e
            | Inr segs \<Rightarrow>
                Inr (if segs \<noteq> []
                     then result @ [mergedFeatureOf lib feature segs (decodedIds lib [feature])]
                     else result,
                     logged @ decodeFailures lib [feature]))
    \<and> mergeGroup lib lengthLimitCalculator tolerance buffer resimplify pipeline [feature]
           (result, logged)
         \<noteq> Inr (result @ [feature], logged')"
proof -
  have n: "\<not> takesShortcut lengthLimitCalculator tolerance buffer resimplify [feature]"
    using assms(1) by (simp add: takesShortcut_def)
  show ?thesis
    by (rule conjI[OF mergeGroup_merge[OF n] merge_path_sets_key[OF n assms(2)]])
qed

theorem negative_buffer_singleton_merged_witness:
  "mergeGroup sampleLib (\<lambda>_. 0) 0 (- 1) False None
      [sampleFeature 7 (Encoded [[(10, 10), (20, 20)]])] ([], [])
    = Inr ([\<lparr> id' = 7, geometry = Encoded [[(10, 10), (20, 20)]],
              tags = cyclewayTags(''osm_way_ids'' \<mapsto> StringValue ''7'') \<rparr>], [])
   \<and> mergeGroup sampleLib (\<lambda>_. 0) 0 (- 1) False None
        [sampleFeature 7 (Encoded [[(10, 10), (20, 20)]])] ([], [])
      \<noteq> Inr ([sampleFeature 7 (Encoded [[(10, 10), (20, 20)]])], [])"
proof -
  let ?f = "sampleFeature 7 (Encoded [[(10, 10), (20, 20)]])"
  have b: "(- 1 :: real) < 0" by simp
  have t: "tags ?f ''osm_way_ids'' = None" by (simp add: sampleFeature_def cyclewayTags_def)
  have e: "mergeGroup sampleLib (\<lambda>_. 0) 0 (- 1) False None [?f] ([], [])
    = Inr ([\<lparr> id' = 7, geometry = Encoded [[(10, 10), (20, 20)]],
              tags = cyclewayTags(''osm_way_ids'' \<mapsto> StringValue ''7'') \<rparr>], [])"
    by (simp add: sample_eval)
  have "mergeGroup sampleLib (\<lambda>_. 0) 0 (- 1) False None [?f] ([], []) \<noteq> Inr ([] @ [?f], [])"
    by (rule negative_buffer_singleton_merged[OF b t, THEN conjunct2])
  then have ne: "mergeGroup sampleLib (\<lambda>_. 0) 0 (- 1) False None [?f] ([], []) \<noteq> Inr ([?f], [])"
    by simp
  show ?thesis by (rule conjI[OF e ne])
qed

text \<open>
  Claim C2, as amended. For every group that takes the merge path and emits a merged
  feature, the identifier list attached to it is the comma-joined decimal ids, sorted
  ascending, of all the features of the group whose geometry decodes, whether or not
  any of their coordinates is left after simplification, length filtering and clipping;
  each id appears once when the ids of the group are distinct. And no identifier appears
  in two different output features of \<^verbatim>\<open>mergeLineStrings\<close>, nor twice in one: this for
  a batch whose ids are unique and whose features do not carry the key
  \<^verbatim>\<open>osm_way_ids\<close> already, when \<^verbatim>\<open>groupByAttrs\<close> puts every input feature in at most one
  place, a group or the features it passes on.
\<close>

theorem identifier_list_of_merged_feature:
  fixes lib :: "('g, 'geom, 'p, 'm) planetiler"
  shows "(\<not> takesShortcut lengthLimitCalculator tolerance buffer resimplify (feature1 # rest)
          \<and> mergeGroup lib lengthLimitCalculator tolerance buffer resimplify pipeline
                (feature1 # rest) (result, logged) = Inr (result @ [mf], logged')
        \<longrightarrow> (\<exists>ids. tags mf ''osm_way_ids'' = Some (StringValue (join '','' (map valueOf ids)))
               \<and> identifiers mf = ids
               \<and> sorted ids
               \<and> mset ids = mset (map id' (filter (decodes lib) (feature1 # rest)))
               \<and> (distinct (map id' (feature1 # rest)) \<longrightarrow> distinct ids)))
    \<and> (groupByAttrs lib features = (groups, others)
          \<and> mset (concat groups) + mset others \<subseteq># mset features
          \<and> distinct (map id' features)
          \<and> (\<forall>f \<in> set features. tags f ''osm_way_ids'' = None)
          \<and> mergeLineStrings lib features lengthLimitCalculator tolerance buffer resimplify pipeline
                = Inr (out, logged'')
        \<longrightarrow> distinct (concat (map identifiers out)))"
proof (intro conjI impI)
  assume "\<not> takesShortcut lengthLimitCalculator tolerance buffer resimplify (feature1 # rest)
          \<and> mergeGroup lib lengthLimitCalculator tolerance buffer resimplify pipeline
                (feature1 # rest) (result, logged) = Inr (result @ [mf], logged')"
  then show "\<exists>ids. tags mf ''osm_way_ids'' = Some (StringValue (join '','' (map valueOf ids)))
               \<and> identifiers mf = ids
               \<and> sorted ids
               \<and> mset ids = mset (map id' (filter (decodes lib) (feature1 # rest)))
               \<and> (distinct (map id' (feature1 # rest)) \<longrightarrow> distinct ids)"
    using merged_feature_ids[of lengthLimitCalculator tolerance buffer resimplify feature1 rest
        lib pipeline result logged mf logged'] by blast
next
  assume h: "groupByAttrs lib features = (groups, others)
          \<and> mset (concat groups) + mset others \<subseteq># mset features
          \<and> distinct (map id' features)
          \<and> (\<forall>f \<in> set features. tags f ''osm_way_ids'' = None)
          \<and> mergeLineStrings lib features lengthLimitCalculator tolerance buffer resimplify pipeline
                = Inr (out, logged'')"
  show "distinct (concat (map identifiers out))"
    by (rule mergeLineStrings_identifiers[OF h[THEN conjunct1] h[THEN conjunct2, THEN conjunct1]
          h[THEN conjunct2, THEN conjunct2, THEN conjunct1]
          h[THEN conjunct2, THEN conjunct2, THEN conjunct2, THEN conjunct1]
          h[THEN conjunct2, THEN conjunct2, THEN conjunct2, THEN conjunct2]])
qed

theorem identifier_list_of_merged_feature_witness:
  "mergeGroup sampleLib (\<lambda>_. 0) 0 4 False None
      [sampleFeature 15 (Encoded [[(10, 10), (20, 20)]]), sampleFeature (- 3) Corrupt,
       sampleFeature 9 (Encoded [[(30, 30), (40, 40)]])] ([], [])
    = Inr ([\<lparr> id' = 15, geometry = Encoded [[(10, 10), (20, 20)], [(30, 30), (40, 40)]],
              tags = cyclewayTags(''osm_way_ids'' \<mapsto> StringValue ''9,15'') \<rparr>],
           [(GeometryException ''corrupt geometry'', sampleFeature (- 3) Corrupt)])
   \<and> (\<exists>ids. join '','' (map valueOf ids) = ''9,15'' \<and> sorted ids
         \<and> mset ids = {#15, 9#})
   \<and> mergeLineStrings sampleLib
        [sampleFeature 15 (Encoded [[(10, 10), (20, 20)]]),
         (sampleFeature 4 (Encoded [[(50, 60), (70, 60)]]))\<lparr>tags := footwayTags\<rparr>,
         sampleFeature 9 (Encoded [[(30, 30), (40, 40)]])] (\<lambda>_. 0) 0 4 False None
      = Inr ([\<lparr> id' = 15, geometry = Encoded [[(10, 10), (20, 20)], [(30, 30), (40, 40)]],
                tags = cyclewayTags(''osm_way_ids'' \<mapsto> StringValue ''9,15'') \<rparr>,
              \<lparr> id' = 4, geometry = Encoded [[(50, 60), (70, 60)]],
                tags = footwayTags(''osm_way_ids'' \<mapsto> StringValue ''4'') \<rparr>], [])
   \<and> distinct (concat (map identifiers
        [\<lparr> id' = 15, geometry = Encoded [[(10, 10), (20, 20)], [(30, 30), (40, 40)]],
           tags = cyclewayTags(''osm_way_ids'' \<mapsto> StringValue ''9,15'') \<rparr>,
         \<lparr> id' = 4, geometry = Encoded [[(50, 60), (70, 60)]],
           tags = footwayTags(''osm_way_ids'' \<mapsto> StringValue ''4'') \<rparr>]))"
proof -
  let ?g = "[sampleFeature 15 (Encoded [[(10, 10), (20, 20)]]), sampleFeature (- 3) Corrupt,
       sampleFeature 9 (Encoded [[(30, 30), (40, 40)]])]"
  let ?mf = "\<lparr> id' = 15, geometry = Encoded [[(10, 10), (20, 20)], [(30, 30), (40, 40)]],
              tags = cyclewayTags(''osm_way_ids'' \<mapsto> StringValue ''9,15'') \<rparr>"
  let ?f15 = "sampleFeature 15 (Encoded [[(10, 10), (20, 20)]])"
  let ?f4 = "(sampleFeature 4 (Encoded [[(50, 60), (70, 60)]]))\<lparr>tags := footwayTags\<rparr>"
  let ?f9 = "sampleFeature 9 (Encoded [[(30, 30), (40, 40)]])"
  let ?m4 = "\<lparr> id' = 4, geometry = Encoded [[(50, 60), (70, 60)]],
                tags = footwayTags(''osm_way_ids'' \<mapsto> StringValue ''4'') \<rparr>"
  have n: "\<not> takesShortcut (\<lambda>_. 0) 0 4 False ?g" by (simp add: takesShortcut_def)
  have e: "mergeGroup sampleLib (\<lambda>_. 0) 0 4 False None ?g ([], [])
             = Inr ([] @ [?mf], [(GeometryException ''corrupt geometry'', sampleFeature (- 3) Corrupt)])"
    by (simp add: sample_eval)
  have f: "map id' (filter (decodes sampleLib) ?g) = [15, 9]"
    by (simp add: sample_segs sample_eval)
  note A = identifier_list_of_merged_feature[THEN conjunct1, rule_format, OF conjI[OF n e]]
  from A obtain ids where "tags ?mf ''osm_way_ids'' = Some (StringValue (join '','' (map valueOf ids)))"
    "sorted ids" "mset ids = mset (map id' (filter (decodes sampleLib) ?g))"
    by blast
  then have "join '','' (map valueOf ids) = ''9,15'' \<and> sorted ids \<and> mset ids = {#15, 9#}"
    unfolding f by simp
  then have x: "\<exists>ids. join '','' (map valueOf ids) = ''9,15'' \<and> sorted ids \<and> mset ids = {#15, 9#}" ..
  have e': "mergeGroup sampleLib (\<lambda>_. 0) 0 4 False None ?g ([], [])
             = Inr ([?mf], [(GeometryException ''corrupt geometry'', sampleFeature (- 3) Corrupt)])"
    using e by simp
  have neq: "cyclewayTags \<noteq> footwayTags"
  proof
    assume "cyclewayTags = footwayTags"
    then have "cyclewayTags ''highway'' = footwayTags ''highway''" by simp
    then show False by (simp add: cyclewayTags_def footwayTags_def)
  qed
  have grp: "groupByAttrs sampleLib [?f15, ?f4, ?f9] = ([[?f15, ?f9], [?f4]], [])"
    using neq by (simp add: sampleLib_def sampleFeature_def)
  have part: "mset (concat [[?f15, ?f9], [?f4]]) + mset [] \<subseteq># mset [?f15, ?f4, ?f9]"
    by simp
  have ids: "distinct (map id' [?f15, ?f4, ?f9])" by (simp add: sampleFeature_def)
  have notag: "\<forall>f \<in> set [?f15, ?f4, ?f9]. tags f ''osm_way_ids'' = None"
    by (simp add: sampleFeature_def cyclewayTags_def footwayTags_def)
  have run: "mergeLineStrings sampleLib [?f15, ?f4, ?f9] (\<lambda>_. 0) 0 4 False None
      = Inr ([?mf, ?m4], [])"
    using neq by (simp add: mergeLineStrings_def sample_eval)
  have d: "distinct (concat (map identifiers [?mf, ?m4]))"
    by (rule identifier_list_of_merged_feature[THEN conjunct2, rule_format,
          OF conjI[OF grp conjI[OF part conjI[OF ids conjI[OF notag run]]]]])
  show ?thesis by (rule conjI[OF e' conjI[OF x conjI[OF run d]]])
qed

text \<open>
  Claim C2 as stated fails: feature 9 lies entirely outside the buffered tile square, so
  that alone it leaves no line and none of its coordinates is in the merged geometry,
  and its id is in the identifier list of the merged feature all the same.
\<close>

theorem clipped_away_id_listed_counterexample:
  "outputSegmentsOf sampleLib (\<lambda>_. 0) 0 4 None
      [sampleFeature 9 (Encoded [[(500, 500), (600, 600)]])] = Inr []
   \<and> mergeGroup sampleLib (\<lambda>_. 0) 0 4 False None
      [sampleFeature 15 (Encoded [[(10, 10), (20, 20)]]),
       sampleFeature 9 (Encoded [[(500, 500), (600, 600)]])] ([], [])
    = Inr ([\<lparr> id' = 15, geometry = Encoded [[(10, 10), (20, 20)]],
              tags = cyclewayTags(''osm_way_ids'' \<mapsto> StringValue ''9,15'') \<rparr>], [])"
  by (simp add: sample_segs sample_eval)

text \<open>
  Claim C3, as amended. The sort of a group's lines is a stable sort by Hilbert index
  alone: its result is a permutation of the lines, ascending by index, in which lines
  of equal index keep the order they came in (there is no secondary key). When the
  indices of the lines are pairwise different, every permutation of the lines is sorted
  to the same list.
\<close>

theorem sortByHilbertIndex_stable:
  "mset (sortByHilbertIndex lib lines) = mset lines
   \<and> sorted (map (hilbertIndex lib) (sortByHilbertIndex lib lines))
   \<and> (\<forall>k. filter (\<lambda>l. hilbertIndex lib l = k) (sortByHilbertIndex lib lines)
            = filter (\<lambda>l. hilbertIndex lib l = k) lines)
   \<and> (\<forall>lines'. inj_on (hilbertIndex lib) (set lines) \<and> mset lines' = mset lines
         \<longrightarrow> sortByHilbertIndex lib lines' = sortByHilbertIndex lib lines)"
proof -
  have p: "sort_key (hilbertIndex lib) lines' = sort_key (hilbertIndex lib) lines"
    if "inj_on (hilbertIndex lib) (set lines)" "mset lines' = mset lines" for lines'
  proof -
    from that have "inj_on (hilbertIndex lib) (set lines')" by (metis set_mset_mset)
    with that(2) show ?thesis by (rule sort_key_eq_sort_key)
  qed
  have a: "mset (sort_key (hilbertIndex lib) lines) = mset lines" by simp
  have b: "sorted (map (hilbertIndex lib) (sort_key (hilbertIndex lib) lines))" by simp
  have c: "\<forall>k. filter (\<lambda>l. hilbertIndex lib l = k) (sort_key (hilbertIndex lib) lines)
            = filter (\<lambda>l. hilbertIndex lib l = k) lines"
    by (rule allI) (rule sort_key_stable)
  have d: "\<forall>lines'. inj_on (hilbertIndex lib) (set lines) \<and> mset lines' = mset lines
         \<longrightarrow> sort_key (hilbertIndex lib) lines' = sort_key (hilbertIndex lib) lines"
    using p by blast
  show ?thesis
    unfolding sortByHilbertIndex_sort_key by (rule conjI[OF a conjI[OF b conjI[OF c d]]])
qed

theorem sortByHilbertIndex_stable_witness:
  "sortByHilbertIndex sampleLib [[(30, 30), (40, 40)], [(10, 10), (20, 20)]]
     = [[(10, 10), (20, 20)], [(30, 30), (40, 40)]]
   \<and> sortByHilbertIndex sampleLib [[(10, 10), (20, 20)], [(30, 30), (40, 40)]]
     = sortByHilbertIndex sampleLib [[(30, 30), (40, 40)], [(10, 10), (20, 20)]]"
proof -
  let ?a = "[(10, 10), (20, 20)] :: lineString" and ?b = "[(30, 30), (40, 40)] :: lineString"
  have i: "inj_on (hilbertIndex sampleLib) (set [?b, ?a])"
    by (simp add: sampleLib_def)
  have m: "mset [?a, ?b] = mset [?b, ?a]" by simp
  have e: "sortByHilbertIndex sampleLib [?b, ?a] = [?a, ?b]"
    by (simp add: sortByHilbertIndex_def sampleLib_def)
  from sortByHilbertIndex_stable[of sampleLib "[?b, ?a]"] i m
  have "sortByHilbertIndex sampleLib [?a, ?b] = sortByHilbertIndex sampleLib [?b, ?a]"
    by blast
  with e show ?thesis by simp
qed

text \<open>
  Claim C3 as stated fails: two lines that start in the same grid cell have the same
  index, and the sort leaves them in the order they came in; and the pipeline run on a
  list of two features and on the same list reversed emits features that differ in id
  and in geometry.
\<close>

theorem equal_index_order_counterexample:
  "hilbertIndex sampleLib [(10.25, 10.25), (20, 20)] = hilbertIndex sampleLib [(10.5, 10.75), (5, 30)]
   \<and> sortByHilbertIndex sampleLib [[(10.25, 10.25), (20, 20)], [(10.5, 10.75), (5, 30)]]
       = [[(10.25, 10.25), (20, 20)], [(10.5, 10.75), (5, 30)]]
   \<and> sortByHilbertIndex sampleLib [[(10.5, 10.75), (5, 30)], [(10.25, 10.25), (20, 20)]]
       = [[(10.5, 10.75), (5, 30)], [(10.25, 10.25), (20, 20)]]
   \<and> mergeLineStrings sampleLib
        [sampleFeature 1 (Encoded [[(10.25, 10.25), (20, 20)]]),
         sampleFeature 2 (Encoded [[(10.5, 10.75), (5, 30)]])] (\<lambda>_. 0) 0 4 False None
       = Inr ([\<lparr> id' = 1, geometry = Encoded [[(10.25, 10.25), (20, 20)], [(10.5, 10.75), (5, 30)]],
                 tags = cyclewayTags(''osm_way_ids'' \<mapsto> StringValue ''1,2'') \<rparr>], [])
   \<and> mergeLineStrings sampleLib
        [sampleFeature 2 (Encoded [[(10.5, 10.75), (5, 30)]]),
         sampleFeature 1 (Encoded [[(10.25, 10.25), (20, 20)]])] (\<lambda>_. 0) 0 4 False None
       = Inr ([\<lparr> id' = 2, geometry = Encoded [[(10.5, 10.75), (5, 30)], [(10.25, 10.25), (20, 20)]],
                 tags = cyclewayTags(''osm_way_ids'' \<mapsto> StringValue ''1,2'') \<rparr>], [])"
  by (simp add: mergeLineStrings_def sample_eval)

text \<open>
  Claim C6: what the code does on the input at which the claim fails. When the shortcut
  is taken, which needs buffer \<open>= 0\<close>, the group's one feature is emitted as it is, also
  when its merged and clipped line set is empty. Off the shortcut a group whose merged
  and clipped line set is empty emits nothing and raises no error, as the claim says
  of every group. So a line that lies entirely outside the tile square is emitted when
  it is alone in its group and dropped when it is in a group of two, with the same
  buffer 0, for which the clipping step does clip.
\<close>

theorem shortcut_emits_empty_output:
  "(takesShortcut lengthLimitCalculator tolerance buffer resimplify [feature]
      \<and> outputSegmentsOf lib lengthLimitCalculator tolerance buffer pipeline [feature] = Inr []
     \<longrightarrow> mergeGroup lib lengthLimitCalculator tolerance buffer resimplify pipeline [feature]
           (result, logged) = Inr (result @ [feature], logged))
   \<and> (groupedFeatures \<noteq> []
      \<and> \<not> takesShortcut lengthLimitCalculator tolerance buffer resimplify groupedFeatures
      \<and> outputSegmentsOf lib lengthLimitCalculator tolerance buffer pipeline groupedFeatures = Inr []
     \<longrightarrow> mergeGroup lib lengthLimitCalculator tolerance buffer resimplify pipeline groupedFeatures
           (result, logged) = Inr (result, logged @ decodeFailures lib groupedFeatures))"
proof (intro conjI impI)
  assume "takesShortcut lengthLimitCalculator tolerance buffer resimplify [feature]
      \<and> outputSegmentsOf lib lengthLimitCalculator tolerance buffer pipeline [feature] = Inr []"
  then have "takesShortcut lengthLimitCalculator tolerance buffer resimplify [feature]" ..
  then show "mergeGroup lib lengthLimitCalculator tolerance buffer resimplify pipeline [feature]
           (result, logged) = Inr (result @ [feature], logged)"
    by (rule shortcut_ignores_library)
next
  assume h: "groupedFeatures \<noteq> []
      \<and> \<not> takesShortcut lengthLimitCalculator tolerance buffer resimplify groupedFeatures
      \<and> outputSegmentsOf lib lengthLimitCalculator tolerance buffer pipeline groupedFeatures = Inr []"
  show "mergeGroup lib lengthLimitCalculator tolerance buffer resimplify pipeline groupedFeatures
           (result, logged) = Inr (result, logged @ decodeFailures lib groupedFeatures)"
    by (rule merge_path_empty_output[OF h[THEN conjunct1] h[THEN conjunct2, THEN conjunct1]
          h[THEN conjunct2, THEN conjunct2]])
qed

theorem shortcut_emits_empty_output_witness:
  "outputSegmentsOf sampleLib (\<lambda>_. 0) 0 0 None
      [sampleFeature 9 (Encoded [[(500, 500), (600, 600)]])] = Inr []
   \<and> mergeGroup sampleLib (\<lambda>_. 0) 0 0 False None
      [sampleFeature 9 (Encoded [[(500, 500), (600, 600)]])] ([], [])
     = Inr ([sampleFeature 9 (Encoded [[(500, 500), (600, 600)]])], [])
   \<and> mergeGroup sampleLib (\<lambda>_. 0) 0 0 False None
      [sampleFeature 9 (Encoded [[(500, 500), (600, 600)]]),
       sampleFeature 8 (Encoded [[(700, 700), (800, 800)]])] ([], [])
     = Inr ([], [])"
proof -
  let ?f9 = "sampleFeature 9 (Encoded [[(500, 500), (600, 600)]])"
  let ?g = "[?f9, sampleFeature 8 (Encoded [[(700, 700), (800, 800)]])]"
  have s1: "outputSegmentsOf sampleLib (\<lambda>_. 0) 0 0 None [?f9] = Inr []"
    by (simp add: sample_segs sample_eval)
  have t1: "takesShortcut (\<lambda>_. 0) 0 0 False [?f9]" by (simp add: takesShortcut_def)
  have e1: "mergeGroup sampleLib (\<lambda>_. 0) 0 0 False None [?f9] ([], []) = Inr ([] @ [?f9], [])"
    by (rule shortcut_emits_empty_output[THEN conjunct1, rule_format, OF conjI[OF t1 s1]])
  have s2: "outputSegmentsOf sampleLib (\<lambda>_. 0) 0 0 None ?g = Inr []"
    by (simp add: sample_segs sample_eval)
  have n2: "\<not> takesShortcut (\<lambda>_. 0) 0 0 False ?g" by (simp add: takesShortcut_def)
  have ne: "?g \<noteq> []" by simp
  have f2: "decodeFailures sampleLib ?g = []" by (simp add: sample_segs sample_eval)
  have "mergeGroup sampleLib (\<lambda>_. 0) 0 0 False None ?g ([], [])
      = Inr ([], [] @ decodeFailures sampleLib ?g)"
    by (rule shortcut_emits_empty_output[THEN conjunct2, rule_format,
          OF conjI[OF ne conjI[OF n2 s2]]])
  then have e2: "mergeGroup sampleLib (\<lambda>_. 0) 0 0 False None ?g ([], []) = Inr ([], [])"
    unfolding f2 by simp
  have e1': "mergeGroup sampleLib (\<lambda>_. 0) 0 0 False None [?f9] ([], []) = Inr ([?f9], [])"
    using e1 by simp
  show ?thesis by (rule conjI[OF s1 conjI[OF e1' e2]])
qed

text \<open>
  Claim C7, as amended. For every group that does not take the shortcut, a feature
  whose geometry fails to decode is logged and left out: the merger is given exactly the
  geometries that decode, the identifier list holds exactly the ids of the features that
  decode (so not the failing feature's id, when the ids of the group are distinct), and
  the group's result is the one computed from those. A decode failure raises no error:
  the group ends in an error only if the clipper does, so the loop over the groups goes
  on.
\<close>

theorem decode_failure_excluded_and_logged:
  assumes "\<not> takesShortcut lengthLimitCalculator tolerance buffer resimplify (feature1 # rest)"
  shows "mergeGroup lib lengthLimitCalculator tolerance buffer resimplify pipeline (feature1 # rest)
           (result, logged)
         = (case outputSegmentsOf lib lengthLimitCalculator tolerance buffer pipeline (feature1 # rest) of
              Inl e \<Rightarrow> Inl e
            | Inr segs \<Rightarrow>
                Inr (if segs \<noteq> []
                     then result @ [mergedFeatureOf lib feature1 segs (decodedIds lib (feature1 # rest))]
                     else result,
                     logged @ decodeFailures lib (feature1 # rest)))
    \<and> (\<forall>f e. f \<in> set (feature1 # rest) \<and> decode lib (geometry f) = Inl e
          \<longrightarrow> (e, f) \<in> set (decodeFailures lib (feature1 # rest))
              \<and> (distinct (map id' (feature1 # rest))
                   \<longrightarrow> id' f \<notin> set (decodedIds lib (feature1 # rest))))
    \<and> (\<forall>g. g \<in> set (decodedGeometries lib (feature1 # rest))
          \<longleftrightarrow> (\<exists>f \<in> set (feature1 # rest). decode lib (geometry f) = Inr g))
    \<and> (\<forall>e. mergeGroup lib lengthLimitCalculator tolerance buffer resimplify pipeline
               (feature1 # rest) (result, logged) = Inl e
          \<longleftrightarrow> outputSegmentsOf lib lengthLimitCalculator tolerance buffer pipeline
               (feature1 # rest) = Inl e)"
proof -
  have ids: "id' f \<notin> set (decodedIds lib fs)"
    if "f \<in> set fs" "decode lib (geometry f) = Inl e" "distinct (map id' fs)" for f e and fs
  proof
    assume "id' f \<in> set (decodedIds lib fs)"
    then obtain f' where f': "f' \<in> set fs" "decodes lib f'" "id' f' = id' f"
      by (auto simp: decodedIds_def)
    with that(1,3) have "f' = f" by (meson distinct_map inj_onD)
    with f'(2) that(2) show False by (simp add: decodes_def)
  qed
  let ?g = "feature1 # rest"
  note A = mergeGroup_merge[OF assms, of lib pipeline result logged]
  have B: "\<forall>f e. f \<in> set ?g \<and> decode lib (geometry f) = Inl e
          \<longrightarrow> (e, f) \<in> set (decodeFailures lib ?g)
              \<and> (distinct (map id' ?g) \<longrightarrow> id' f \<notin> set (decodedIds lib ?g))"
  proof (intro allI impI conjI)
    fix f e assume h: "f \<in> set ?g \<and> decode lib (geometry f) = Inl e"
    then show "(e, f) \<in> set (decodeFailures lib ?g)"
      using decodeFailures_mem[of f ?g lib e] by blast
    assume "distinct (map id' ?g)"
    with h show "id' f \<notin> set (decodedIds lib ?g)"
      using ids[of f ?g e] by blast
  qed
  have C: "\<forall>g. g \<in> set (decodedGeometries lib ?g)
          \<longleftrightarrow> (\<exists>f \<in> set ?g. decode lib (geometry f) = Inr g)"
    by (rule allI) (rule decodedGeometries_mem)
  have D: "\<forall>e. mergeGroup lib lengthLimitCalculator tolerance buffer resimplify pipeline ?g
               (result, logged) = Inl e
          \<longleftrightarrow> outputSegmentsOf lib lengthLimitCalculator tolerance buffer pipeline ?g = Inl e"
    unfolding A by (cases "outputSegmentsOf lib lengthLimitCalculator tolerance buffer pipeline ?g") simp_all
  show ?thesis by (rule conjI[OF A conjI[OF B conjI[OF C D]]])
qed

theorem decode_failure_excluded_and_logged_witness:
  "mergeGroup sampleLib (\<lambda>_. 0) 0 4 False None
      [sampleFeature 15 (Encoded [[(10, 10), (20, 20)]]), sampleFeature (- 3) Corrupt,
       sampleFeature 9 (Encoded [[(30, 30), (40, 40)]])] ([], [])
    = Inr ([\<lparr> id' = 15, geometry = Encoded [[(10, 10), (20, 20)], [(30, 30), (40, 40)]],
              tags = cyclewayTags(''osm_way_ids'' \<mapsto> StringValue ''9,15'') \<rparr>],
           [(GeometryException ''corrupt geometry'', sampleFeature (- 3) Corrupt)])"
proof -
  let ?g = "[sampleFeature 15 (Encoded [[(10, 10), (20, 20)]]), sampleFeature (- 3) Corrupt,
       sampleFeature 9 (Encoded [[(30, 30), (40, 40)]])]"
  have n: "\<not> takesShortcut (\<lambda>_. 0) 0 4 False ?g" by (simp add: takesShortcut_def)
  have s: "outputSegmentsOf sampleLib (\<lambda>_. 0) 0 4 None ?g
             = Inr [[(10, 10), (20, 20)], [(30, 30), (40, 40)]]"
    by (simp add: sample_segs sample_eval)
  have i: "decodedIds sampleLib ?g = [15, 9]" by (simp add: sample_segs sample_eval)
  have l: "decodeFailures sampleLib ?g
             = [(GeometryException ''corrupt geometry'', sampleFeature (- 3) Corrupt)]"
    by (simp add: sample_segs sample_eval)
  have m: "mergedFeatureOf sampleLib (sampleFeature 15 (Encoded [[(10, 10), (20, 20)]]))
             [[(10, 10), (20, 20)], [(30, 30), (40, 40)]] [15, 9]
           = \<lparr> id' = 15, geometry = Encoded [[(10, 10), (20, 20)], [(30, 30), (40, 40)]],
              tags = cyclewayTags(''osm_way_ids'' \<mapsto> StringValue ''9,15'') \<rparr>"
    by (simp add: mergedFeatureOf_def sample_eval)
  note t = decode_failure_excluded_and_logged[OF n, of sampleLib None "[]" "[]", THEN conjunct1]
  from t have "mergeGroup sampleLib (\<lambda>_. 0) 0 4 False None ?g ([], [])
      = Inr ([mergedFeatureOf sampleLib (sampleFeature 15 (Encoded [[(10, 10), (20, 20)]]))
                [[(10, 10), (20, 20)], [(30, 30), (40, 40)]] (decodedIds sampleLib ?g)],
             decodeFailures sampleLib ?g)"
    by (simp add: s)
  then show ?thesis by (simp only: i l m)
qed

text \<open>
  Claim C7 as stated fails on the shortcut: a group of one feature whose geometry does
  not decode, with buffer 0, length limit 0 and \<open>resimplify = false\<close>, is emitted as
  it is; nothing is decoded, excluded or logged. (By \<open>shortcut_ignores_library\<close>
  this is so whatever the library does.)
\<close>

theorem shortcut_skips_decoding_counterexample:
  "decode sampleLib (geometry (sampleFeature 3 Corrupt)) = Inl (GeometryException ''corrupt geometry'')
   \<and> mergeGroup sampleLib (\<lambda>_. 0) 0 0 False None [sampleFeature 3 Corrupt] ([], [])
       = Inr ([sampleFeature 3 Corrupt], [])"
  by (simp add: sample_eval)

text \<open>
  Claim C8, as amended. The stub threshold of the merger is the constant 0.5, for every
  group and whatever the caller passes as length limit, tolerance, buffer, resimplify
  and pipeline: \<^verbatim>\<open>mergeLineStrings\<close> has no parameter that sets it.
\<close>

theorem stub_threshold_fixed:
  "stubMinLength (fst (addFeatures lib groupedFeatures
      (newLoopLineMerger tolerance lengthLimit pipeline, mergedIds, logged))) = 1 / 2"
  by (simp add: addFeatures_eq newLoopLineMerger_def)

text \<open>
  Claim C8 as stated fails: a caller whose configuration asks for a stub threshold of 1
  gets 0.5, and two invocations that differ in every value a caller can pass apply the
  same threshold.
\<close>

theorem stub_threshold_counterexample:
  "stubMinLength (fst (addFeatures sampleLib [sampleFeature 7 (Encoded [[(10, 10), (20, 20)]])]
      (newLoopLineMerger 0 0 None, [], []))) \<noteq> 1
   \<and> stubMinLength (fst (addFeatures sampleLib [sampleFeature 7 (Encoded [[(10, 10), (20, 20)]])]
      (newLoopLineMerger 0 0 None, [], [])))
     = stubMinLength (fst (addFeatures sampleLib [sampleFeature 7 (Encoded [[(10, 10), (20, 20)]])]
      (newLoopLineMerger 7 100 (Some ()), [], [])))"
  by (simp add: addFeatures_eq newLoopLineMerger_def)

text \<open>
  Claim C9. For every group that takes the merge path and emits a merged feature, that
  feature is the group's first feature with the geometry replaced and the tag
  \<^verbatim>\<open>osm_way_ids\<close> set to a string: its id and every other field are those of the first
  feature, and every other tag is as in the first feature.
\<close>

theorem merged_feature_frame:
  assumes "\<not> takesShortcut lengthLimitCalculator tolerance buffer resimplify (feature1 # rest)"
    and "mergeGroup lib lengthLimitCalculator tolerance buffer resimplify pipeline (feature1 # rest)
           (result, logged) = Inr (result @ [mf], logged')"
  shows "(\<exists>segs s. mf = feature1\<lparr>geometry := encodeGeometry lib (combineLineStrings lib segs),
                                   tags := (tags feature1)(''osm_way_ids'' \<mapsto> StringValue s)\<rparr>)
    \<and> id' mf = id' feature1
    \<and> feature.more mf = feature.more feature1
    \<and> (\<forall>k. k \<noteq> ''osm_way_ids'' \<longrightarrow> tags mf k = tags feature1 k)
    \<and> (\<exists>s. tags mf ''osm_way_ids'' = Some (StringValue s))"
proof -
  from assms obtain segs where
    mf: "mf = mergedFeatureOf lib feature1 segs (decodedIds lib (feature1 # rest))"
    by (auto simp: mergeGroup_merge split: sum.splits if_splits)
  show ?thesis
    unfolding mf mergedFeatureOf_def setTag_def copyWithNewGeometry_def
    by (intro conjI) auto
qed

theorem merged_feature_frame_witness:
  "\<not> takesShortcut (\<lambda>_. 0) 0 4 False
        [sampleFeature 15 (Encoded [[(10, 10), (20, 20)]]),
         sampleFeature 9 (Encoded [[(30, 30), (40, 40)]])]
   \<and> mergeGroup sampleLib (\<lambda>_. 0) 0 4 False None
      [sampleFeature 15 (Encoded [[(10, 10), (20, 20)]]),
       sampleFeature 9 (Encoded [[(30, 30), (40, 40)]])] ([], [])
    = Inr ([\<lparr> id' = 15, geometry = Encoded [[(10, 10), (20, 20)], [(30, 30), (40, 40)]],
              tags = cyclewayTags(''osm_way_ids'' \<mapsto> StringValue ''9,15'') \<rparr>], [])
   \<and> id' \<lparr> id' = 15, geometry = Encoded [[(10, 10), (20, 20)], [(30, 30), (40, 40)]],
           tags = cyclewayTags(''osm_way_ids'' \<mapsto> StringValue ''9,15'') \<rparr>
     = id' (sampleFeature 15 (Encoded [[(10, 10), (20, 20)]]))
   \<and> tags \<lparr> id' = 15, geometry = Encoded [[(10, 10), (20, 20)], [(30, 30), (40, 40)]],
            tags = cyclewayTags(''osm_way_ids'' \<mapsto> StringValue ''9,15'') \<rparr> ''highway''
     = tags (sampleFeature 15 (Encoded [[(10, 10), (20, 20)]])) ''highway''"
proof -
  let ?g = "[sampleFeature 15 (Encoded [[(10, 10), (20, 20)]]),
       sampleFeature 9 (Encoded [[(30, 30), (40, 40)]])]"
  let ?mf = "\<lparr> id' = 15, geometry = Encoded [[(10, 10), (20, 20)], [(30, 30), (40, 40)]],
              tags = cyclewayTags(''osm_way_ids'' \<mapsto> StringValue ''9,15'') \<rparr>"
  have n: "\<not> takesShortcut (\<lambda>_. 0) 0 4 False ?g" by (simp add: takesShortcut_def)
  have e: "mergeGroup sampleLib (\<lambda>_. 0) 0 4 False None ?g ([], []) = Inr ([] @ [?mf], [])"
    by (simp add: sample_eval)
  note t = merged_feature_frame[OF n e]
  have i: "id' ?mf = id' (sampleFeature 15 (Encoded [[(10, 10), (20, 20)]]))"
    by (rule t[THEN conjunct2, THEN conjunct1])
  have k: "tags ?mf ''highway'' = tags (sampleFeature 15 (Encoded [[(10, 10), (20, 20)]])) ''highway''"
    by (rule t[THEN conjunct2, THEN conjunct2, THEN conjunct2, THEN conjunct1, rule_format]) simp
  have e': "mergeGroup sampleLib (\<lambda>_. 0) 0 4 False None ?g ([], []) = Inr ([?mf], [])"
    using e by simp
  show ?thesis by (rule conjI[OF n conjI[OF e' conjI[OF i k]]])
qed

end
